theory Spec2Isabelle
  imports Main
begin

section \<open>Values, exceptions and the platform\<close>

text \<open>
  The library of \<^verbatim>\<open>src/core.ts\<close> moves plain JavaScript data between browser tabs.
  A value is modelled by the datatype below: numbers are the integers the code itself
  produces (\<^verbatim>\<open>Date.now()\<close>, reference counts); payload numbers are only carried around.
  An object is its list of own properties.
\<close>

datatype jsval =
    Undefined
  | Null
  | JBool bool
  | JNum int
  | JStr string
  | JArr "jsval list"
  | JObj "(string \<times> jsval) list"

text \<open>\<^verbatim>\<open>msg && typeof msg === 'object'\<close>: a non-null object or array.\<close>

fun is_object :: "jsval \<Rightarrow> bool" where
  "is_object (JObj fs) = True"
| "is_object (JArr xs) = True"
| "is_object v = False"

text \<open>Property read \<^verbatim>\<open>msg.name\<close> on a value that is already known to be an object:
  an absent property reads as \<^verbatim>\<open>undefined\<close>.\<close>

fun get_prop :: "jsval \<Rightarrow> string \<Rightarrow> jsval" where
  "get_prop (JObj fs) name = (case map_of fs name of Some v \<Rightarrow> v | None \<Rightarrow> Undefined)"
| "get_prop v name = Undefined"

text \<open>Everything that can be thrown at the library.\<close>

datatype exn =
    QuotaExceededError
  | SecurityError
  | SyntaxError
  | DataCloneError
  | InvalidStateError
  | ConstructorError
  | CallbackError

text \<open>
  The browser is a parameter of every operation. It says which capabilities exist, which
  calls of a primitive throw, what \<^verbatim>\<open>JSON.stringify\<close> and \<^verbatim>\<open>JSON.parse\<close> compute, what the clock
  and the random source return, and which consumer callbacks throw on which argument.
  \<open>bc_echo\<close> is true for a \<^verbatim>\<open>BroadcastChannel\<close> whose \<^verbatim>\<open>postMessage\<close> also calls the
  poster's own \<^verbatim>\<open>onmessage\<close> (the mock of \<^verbatim>\<open>tests/setup.ts\<close> does; browsers do not).
  The library applies \<^verbatim>\<open>JSON.stringify\<close> and a channel's \<open>serialize\<close> only to values other
  than \<^verbatim>\<open>undefined\<close>, where the result is a string or an exception. A storage event is
  fired by the platform in other contexts only, so a write has no echo here.
\<close>

record platform =
  has_window :: bool
  has_BroadcastChannel :: bool
  bc_construct_fails :: "string \<Rightarrow> bool"
  bc_post_fails :: "jsval \<Rightarrow> bool"
  bc_echo :: bool
  ls_get_fails :: "string \<Rightarrow> bool"
  ls_set_fails :: "string \<Rightarrow> string \<Rightarrow> bool"
  ss_get_fails :: "string \<Rightarrow> bool"
  ss_set_fails :: "string \<Rightarrow> string \<Rightarrow> bool"
  JSON_stringify :: "jsval \<Rightarrow> exn + string"
  JSON_parse :: "string \<Rightarrow> exn + jsval"
  Date_now :: nat
  Math_random36 :: string
  callback_throws :: "nat \<Rightarrow> jsval \<Rightarrow> bool"

section \<open>The state of one execution context\<close>

text \<open>\<^verbatim>\<open>Options<T>\<close>; an absent field is \<open>None\<close> (\<open>persist\<close>: false).\<close>

record options =
  channelName :: "string option"
  persist :: bool
  serialize :: "(jsval \<Rightarrow> exn + string) option"
  deserialize :: "(string \<Rightarrow> exn + jsval) option"

text \<open>
  A \<^verbatim>\<open>CrossTabChannel\<close> object. Subscribers are consumer callbacks, named by numbers; the
  \<^verbatim>\<open>Set\<close> of them is a list without repetition in insertion order, which is the order
  \<^verbatim>\<open>forEach\<close> visits. \<open>ch_transport\<close> is the address of the transport object the
  constructor obtained; \<open>ch_unsubscribe\<close> says whether \<^verbatim>\<open>_unsubscribe\<close> is set.
\<close>

record channel =
  ch_key :: string
  ch_value :: jsval
  ch_subscribers :: "nat list"
  ch_transport :: nat
  ch_storageKey :: string
  ch_serialize :: "jsval \<Rightarrow> exn + string"
  ch_deserialize :: "string \<Rightarrow> exn + jsval"
  ch_options :: options
  ch_unsubscribe :: bool

text \<open>
  The object \<^verbatim>\<open>createTransport\<close> returns, one of three shapes. Its listeners are the
  closures that channel constructors register, each named by the address of its channel.
  \<open>t_destroyed\<close> records that \<^verbatim>\<open>destroy()\<close> has run: the broadcast handle is closed
  (native), the storage handler is removed (fallback); the no-op shape holds nothing, and
  for it the flag only records the call. Objects are named by their addresses, the
  numbers \<open>next_t\<close> and \<open>next_c\<close> count the objects allocated.
\<close>

datatype strategy = NoopT | NativeT | FallbackT

record transport =
  t_strategy :: strategy
  t_name :: string
  t_listeners :: "nat list"
  t_destroyed :: bool

text \<open>
  The context: both storages, the module variables \<^verbatim>\<open>tabId\<close>, \<^verbatim>\<open>transports\<close> and
  \<^verbatim>\<open>transportRefs\<close>, the objects allocated so far, and two traces: \<open>calls\<close> lists every
  invocation of a consumer callback (channel, callback, argument), \<open>forwarded\<close> every
  invocation of a transport listener (transport, listener, message).
\<close>

record world =
  localStorage :: "string \<rightharpoonup> string"
  sessionStorage :: "string \<rightharpoonup> string"
  tabId :: "string option"
  transports :: "string \<rightharpoonup> nat"
  transportRefs :: "string \<rightharpoonup> int"
  theap :: "nat \<Rightarrow> transport"
  next_t :: nat
  cheap :: "nat \<Rightarrow> channel"
  next_c :: nat
  calls :: "(nat \<times> nat \<times> jsval) list"
  forwarded :: "(nat \<times> nat \<times> jsval) list"

section \<open>Computations that may throw\<close>

text \<open>
  An operation maps the context to an outcome and the context it leaves behind: \<open>Inl\<close> is
  an exception on its way to the caller, with the effects made before it was thrown.
\<close>

type_synonym 'a comp = "world \<Rightarrow> (exn + 'a) \<times> world"

definition ret :: "'a \<Rightarrow> 'a comp" where
  "ret x = (\<lambda>w. (Inr x, w))"

definition throw :: "exn \<Rightarrow> 'a comp" where
  "throw e = (\<lambda>w. (Inl e, w))"

definition bind :: "'a comp \<Rightarrow> ('a \<Rightarrow> 'b comp) \<Rightarrow> 'b comp" where
  "bind m f = (\<lambda>w. case m w of (Inl e, w') \<Rightarrow> (Inl e, w') | (Inr x, w') \<Rightarrow> f x w')"

text \<open>\<^verbatim>\<open>try { m } catch { h }\<close>.\<close>

definition try_catch :: "'a comp \<Rightarrow> 'a comp \<Rightarrow> 'a comp" where
  "try_catch m h = (\<lambda>w. case m w of (Inl e, w') \<Rightarrow> h w' | (Inr x, w') \<Rightarrow> (Inr x, w'))"

definition modify :: "(world \<Rightarrow> world) \<Rightarrow> unit comp" where
  "modify f = (\<lambda>w. (Inr (), f w))"

definition read :: "(world \<Rightarrow> 'a) \<Rightarrow> 'a comp" where
  "read f = (\<lambda>w. (Inr (f w), w))"

text \<open>\<^verbatim>\<open>xs.forEach(f)\<close> over the elements present when the loop starts.\<close>

fun for_each :: "('a \<Rightarrow> unit comp) \<Rightarrow> 'a list \<Rightarrow> unit comp" where
  "for_each f [] = ret ()"
| "for_each f (x # xs) = bind (f x) (\<lambda>_. for_each f xs)"

text \<open>\<^verbatim>\<open>Set.add\<close> and \<^verbatim>\<open>Set.delete\<close>.\<close>

definition set_add :: "'a \<Rightarrow> 'a list \<Rightarrow> 'a list" where
  "set_add x xs = (if x \<in> set xs then xs else xs @ [x])"

definition set_delete :: "'a \<Rightarrow> 'a list \<Rightarrow> 'a list" where
  "set_delete x xs = removeAll x xs"

text \<open>Truthiness of a string or of \<^verbatim>\<open>string | null\<close>.\<close>

definition truthy :: "string option \<Rightarrow> bool" where
  "truthy s = (case s of None \<Rightarrow> False | Some t \<Rightarrow> t \<noteq> [])"

text \<open>\<^verbatim>\<open>String.prototype.trim\<close> on the white space of the Latin-1 range.\<close>

definition is_space :: "char \<Rightarrow> bool" where
  "is_space c = (of_char c \<in> {9, 10, 11, 12, 13, 32, 160 :: nat})"

definition trim :: "string \<Rightarrow> string" where
  "trim s = rev (dropWhile is_space (rev (dropWhile is_space s)))"

section \<open>Storage primitives\<close>

definition ls_getItem :: "platform \<Rightarrow> string \<Rightarrow> string option comp" where
  "ls_getItem p k =
     (\<lambda>w. if ls_get_fails p k then (Inl SecurityError, w) else (Inr (localStorage w k), w))"

definition ls_setItem :: "platform \<Rightarrow> string \<Rightarrow> string \<Rightarrow> unit comp" where
  "ls_setItem p k v =
     (\<lambda>w. if ls_set_fails p k v then (Inl QuotaExceededError, w)
          else (Inr (), w\<lparr>localStorage := (localStorage w)(k \<mapsto> v)\<rparr>))"

definition ss_getItem :: "platform \<Rightarrow> string \<Rightarrow> string option comp" where
  "ss_getItem p k =
     (\<lambda>w. if ss_get_fails p k then (Inl SecurityError, w) else (Inr (sessionStorage w k), w))"

definition ss_setItem :: "platform \<Rightarrow> string \<Rightarrow> string \<Rightarrow> unit comp" where
  "ss_setItem p k v =
     (\<lambda>w. if ss_set_fails p k v then (Inl QuotaExceededError, w)
          else (Inr (), w\<lparr>sessionStorage := (sessionStorage w)(k \<mapsto> v)\<rparr>))"

section \<open>The identity provider\<close>

text \<open>Decimal digits of \<^verbatim>\<open>Date.now()\<close> inside the template literal.\<close>

definition digit_char :: "nat \<Rightarrow> char" where
  "digit_char d = (''0123456789'' ! d)"

fun digits :: "nat \<Rightarrow> string" where
  "digits n = (if n < 10 then [digit_char n] else digits (n div 10) @ [digit_char (n mod 10)])"

declare digits.simps [simp del]

text \<open>
  \<^verbatim>\<open>getTabId\<close>: the constant \<^verbatim>\<open>'server'\<close> without a window; the cached identity when there
  is one; else the one in \<^verbatim>\<open>sessionStorage\<close>, which is cached; else a fresh one, cached
  and written to \<^verbatim>\<open>sessionStorage\<close>. Both storage accesses sit in a \<^verbatim>\<open>try\<close>.
\<close>

definition read_stored_tabId :: "platform \<Rightarrow> string option comp" where
  "read_stored_tabId p =
     try_catch
       (bind (ss_getItem p ''xts-tid'') (\<lambda>stored.
          if truthy stored
          then bind (modify (\<lambda>w. w\<lparr>tabId := stored\<rparr>)) (\<lambda>_. ret stored)
          else ret None))
       (ret None)"

definition fresh_tabId :: "platform \<Rightarrow> string" where
  "fresh_tabId p = digits (Date_now p) @ ''-'' @ Math_random36 p"

definition getTabId :: "platform \<Rightarrow> string comp" where
  "getTabId p =
     (if \<not> has_window p then ret ''server''
      else bind (read tabId) (\<lambda>cached.
        if truthy cached then ret (the cached)
        else bind (read_stored_tabId p) (\<lambda>found.
          case found of
            Some s \<Rightarrow> ret s
          | None \<Rightarrow>
              bind (modify (\<lambda>w. w\<lparr>tabId := Some (fresh_tabId p)\<rparr>)) (\<lambda>_.
              bind (try_catch (ss_setItem p ''xts-tid'' (fresh_tabId p)) (ret ())) (\<lambda>_.
              ret (fresh_tabId p))))))"

section \<open>The channel's side of a delivery\<close>

definition lift :: "exn + 'a \<Rightarrow> 'a comp" where
  "lift r = (case r of Inl e \<Rightarrow> throw e | Inr x \<Rightarrow> ret x)"

text \<open>
  A consumer callback is opaque here: calling it is recorded in \<open>calls\<close>, and it returns
  or throws as the platform says. It is taken not to call back into the library while
  it runs; the section \<open>Callbacks that call back\<close> models the callbacks that do.
\<close>

definition call_subscriber :: "platform \<Rightarrow> nat \<Rightarrow> jsval \<Rightarrow> nat \<Rightarrow> unit comp" where
  "call_subscriber p c v fn =
     (\<lambda>w. (if callback_throws p fn v then Inl CallbackError else Inr (),
           w\<lparr>calls := calls w @ [(c, fn, v)]\<rparr>))"

text \<open>
  \<^verbatim>\<open>this.subscribers.forEach(fn => { try { fn(value); } catch {} })\<close>. The source walks
  the live set; with callbacks that leave the set alone, these are the members the set
  has when the loop starts, in insertion order. \<open>for_each_live\<close> is the walk that follows
  the set.
\<close>

definition notify_subscribers :: "platform \<Rightarrow> nat \<Rightarrow> jsval \<Rightarrow> unit comp" where
  "notify_subscribers p c v =
     bind (read (\<lambda>w. ch_subscribers (cheap w c)))
       (for_each (\<lambda>fn. try_catch (call_subscriber p c v fn) (ret ())))"

text \<open>
  The persistence step, written twice in the source with the same text (in the
  constructor's listener and in \<^verbatim>\<open>setValue\<close>): only with \<open>persist\<close> and a window, and
  only a serialization that is truthy and not the string \<^verbatim>\<open>'undefined'\<close> is stored.
\<close>

definition persist_value :: "platform \<Rightarrow> nat \<Rightarrow> jsval \<Rightarrow> unit comp" where
  "persist_value p c v =
     bind (read (\<lambda>w. cheap w c)) (\<lambda>ch.
       if persist (ch_options ch) \<and> has_window p
       then try_catch
              (bind (lift (ch_serialize ch v)) (\<lambda>serialized.
                 if serialized \<noteq> [] \<and> serialized \<noteq> ''undefined''
                 then ls_setItem p (ch_storageKey ch) serialized
                 else ret ()))
              (ret ())
       else ret ())"

text \<open>The closure the constructor of channel \<open>c\<close> hands to \<^verbatim>\<open>transport.subscribe\<close>.\<close>

definition chan_listener :: "platform \<Rightarrow> nat \<Rightarrow> jsval \<Rightarrow> unit comp" where
  "chan_listener p c msg =
     bind (read (\<lambda>w. cheap w c)) (\<lambda>ch.
       if \<not> is_object msg then ret ()
       else if get_prop msg ''key'' \<noteq> JStr (ch_key ch) then ret ()
       else if get_prop msg ''value'' = Undefined then ret ()
       else
         bind (modify (\<lambda>w. w\<lparr>cheap := (cheap w)(c := (cheap w c)\<lparr>ch_value := get_prop msg ''value''\<rparr>)\<rparr>)) (\<lambda>_.
         bind (persist_value p c (get_prop msg ''value'')) (\<lambda>_.
         notify_subscribers p c (get_prop msg ''value''))))"

section \<open>Transports\<close>

text \<open>A transport calls listener \<open>fn\<close> with \<open>msg\<close>; the call is recorded.\<close>

definition invoke_listener :: "platform \<Rightarrow> nat \<Rightarrow> jsval \<Rightarrow> nat \<Rightarrow> unit comp" where
  "invoke_listener p t msg fn =
     bind (modify (\<lambda>w. w\<lparr>forwarded := forwarded w @ [(t, fn, msg)]\<rparr>)) (\<lambda>_.
     chan_listener p fn msg)"

text \<open>\<^verbatim>\<open>listeners.forEach(fn => { try { fn(msg); } catch {} })\<close>\<close>

definition forward :: "platform \<Rightarrow> nat \<Rightarrow> jsval \<Rightarrow> unit comp" where
  "forward p t msg =
     bind (read (\<lambda>w. t_listeners (theap w t)))
       (for_each (\<lambda>fn. try_catch (invoke_listener p t msg fn) (ret ())))"

text \<open>
  The test both live handlers apply (lines 48 and 91): an object, with a defined
  \<open>value\<close>, whose \<open>tabId\<close> is not this context's. \<^verbatim>\<open>getTabId()\<close> is only called when the
  first two conjuncts hold.
\<close>

definition filter_forward :: "platform \<Rightarrow> nat \<Rightarrow> jsval \<Rightarrow> unit comp" where
  "filter_forward p t msg =
     (if is_object msg \<and> get_prop msg ''value'' \<noteq> Undefined
      then bind (getTabId p) (\<lambda>me.
             if get_prop msg ''tabId'' \<noteq> JStr me then forward p t msg else ret ())
      else ret ())"

text \<open>\<^verbatim>\<open>bc.onmessage\<close> of the native transport \<open>t\<close>, applied to \<^verbatim>\<open>e.data\<close>.\<close>

definition bc_onmessage :: "platform \<Rightarrow> nat \<Rightarrow> jsval \<Rightarrow> unit comp" where
  "bc_onmessage p t data = filter_forward p t data"

definition slot_of :: "transport \<Rightarrow> string" where
  "slot_of tr = ''xts-'' @ t_name tr"

text \<open>The \<^verbatim>\<open>storage\<close> handler of the fallback transport \<open>t\<close>, applied to \<^verbatim>\<open>e.key\<close> and
  \<^verbatim>\<open>e.newValue\<close>.\<close>

definition storage_handler :: "platform \<Rightarrow> nat \<Rightarrow> string option \<Rightarrow> string option \<Rightarrow> unit comp" where
  "storage_handler p t ekey newValue =
     bind (read (\<lambda>w. theap w t)) (\<lambda>tr.
       if ekey \<noteq> Some (slot_of tr) \<or> \<not> truthy newValue then ret ()
       else try_catch
              (bind (lift (JSON_parse p (the newValue))) (filter_forward p t))
              (ret ()))"

text \<open>
  \<^verbatim>\<open>bc.postMessage\<close>, a primitive of the platform: it throws on a closed handle and
  when the platform says so; other contexts are outside this model; with \<open>bc_echo\<close> the
  poster's own handler runs before \<^verbatim>\<open>postMessage\<close> returns.
\<close>

definition bc_postMessage :: "platform \<Rightarrow> nat \<Rightarrow> jsval \<Rightarrow> unit comp" where
  "bc_postMessage p t m =
     bind (read (\<lambda>w. theap w t)) (\<lambda>tr.
       if t_destroyed tr then throw InvalidStateError
       else if bc_post_fails p m then throw DataCloneError
       else if bc_echo p then bc_onmessage p t m
       else ret ())"

text \<open>\<^verbatim>\<open>typeof msg === 'object' && msg !== null ? msg : { value: msg, tabId: getTabId(), timestamp: Date.now() }\<close>\<close>

definition envelope_of :: "platform \<Rightarrow> jsval \<Rightarrow> jsval comp" where
  "envelope_of p msg =
     (if is_object msg then ret msg
      else bind (getTabId p) (\<lambda>me.
             ret (JObj [(''value'', msg), (''tabId'', JStr me),
                        (''timestamp'', JNum (int (Date_now p)))])))"

definition t_publish :: "platform \<Rightarrow> nat \<Rightarrow> jsval \<Rightarrow> unit comp" where
  "t_publish p t msg =
     bind (read (\<lambda>w. theap w t)) (\<lambda>tr.
       case t_strategy tr of
         NoopT \<Rightarrow> ret ()
       | NativeT \<Rightarrow>
           try_catch (bind (envelope_of p msg) (bc_postMessage p t)) (ret ())
       | FallbackT \<Rightarrow>
           if \<not> has_window p then ret ()
           else try_catch
                  (bind (envelope_of p msg) (\<lambda>message.
                   bind (lift (JSON_stringify p message)) (\<lambda>text.
                   ls_setItem p (slot_of tr) text)))
                  (ret ()))"

definition add_listener :: "nat \<Rightarrow> nat \<Rightarrow> unit comp" where
  "add_listener t fn =
     modify (\<lambda>w. w\<lparr>theap := (theap w)(t := (theap w t)\<lparr>t_listeners := set_add fn (t_listeners (theap w t))\<rparr>)\<rparr>)"

text \<open>
  \<^verbatim>\<open>subscribe\<close>. The fallback shape also reads its slot at once and hands a well-formed
  stored message with a defined \<open>value\<close> to the new listener; this read has no \<open>tabId\<close>
  test, and a throwing listener is caught by the same \<^verbatim>\<open>try\<close> as a parse error.
\<close>

definition t_subscribe :: "platform \<Rightarrow> nat \<Rightarrow> nat \<Rightarrow> unit comp" where
  "t_subscribe p t fn =
     bind (read (\<lambda>w. theap w t)) (\<lambda>tr.
       case t_strategy tr of
         NoopT \<Rightarrow> ret ()
       | NativeT \<Rightarrow> add_listener t fn
       | FallbackT \<Rightarrow>
           bind (add_listener t fn) (\<lambda>_.
           if has_window p
           then try_catch
                  (bind (ls_getItem p (slot_of tr)) (\<lambda>stored.
                     if truthy stored
                     then bind (lift (JSON_parse p (the stored))) (\<lambda>msg.
                            if is_object msg \<and> get_prop msg ''value'' \<noteq> Undefined
                            then invoke_listener p t msg fn
                            else ret ())
                     else ret ()))
                  (ret ())
           else ret ()))"

text \<open>The function \<^verbatim>\<open>subscribe\<close> returned.\<close>

definition t_unsubscribe :: "nat \<Rightarrow> nat \<Rightarrow> unit comp" where
  "t_unsubscribe t fn =
     bind (read (\<lambda>w. theap w t)) (\<lambda>tr.
       case t_strategy tr of
         NoopT \<Rightarrow> ret ()
       | _ \<Rightarrow> modify (\<lambda>w. w\<lparr>theap := (theap w)(t := (theap w t)\<lparr>t_listeners := set_delete fn (t_listeners (theap w t))\<rparr>)\<rparr>))"

definition t_destroy :: "nat \<Rightarrow> unit comp" where
  "t_destroy t =
     bind (read (\<lambda>w. theap w t)) (\<lambda>tr.
       case t_strategy tr of
         NoopT \<Rightarrow> modify (\<lambda>w. w\<lparr>theap := (theap w)(t := (theap w t)\<lparr>t_destroyed := True\<rparr>)\<rparr>)
       | _ \<Rightarrow> modify (\<lambda>w. w\<lparr>theap := (theap w)(t := (theap w t)\<lparr>t_destroyed := True, t_listeners := []\<rparr>)\<rparr>))"

definition alloc_transport :: "strategy \<Rightarrow> string \<Rightarrow> nat comp" where
  "alloc_transport s name =
     (\<lambda>w. (Inr (next_t w),
           w\<lparr>theap := (theap w)(next_t w :=
                \<lparr>t_strategy = s, t_name = name, t_listeners = [], t_destroyed = False\<rparr>),
             next_t := Suc (next_t w)\<rparr>))"

text \<open>
  \<^verbatim>\<open>createTransport\<close>: no-op without a window; native when \<^verbatim>\<open>BroadcastChannel\<close> exists
  and its constructor does not throw; the storage fallback otherwise.
\<close>

definition createTransport :: "platform \<Rightarrow> string \<Rightarrow> nat comp" where
  "createTransport p name =
     (if \<not> has_window p then alloc_transport NoopT name
      else
        bind (if has_BroadcastChannel p
              then try_catch
                     (if bc_construct_fails p name then throw ConstructorError
                      else bind (alloc_transport NativeT name) (\<lambda>t. ret (Some t)))
                     (ret None)
              else ret None) (\<lambda>native.
        case native of
          Some t \<Rightarrow> ret t
        | None \<Rightarrow> alloc_transport FallbackT name))"

section \<open>The transport registry\<close>

text \<open>
  \<^verbatim>\<open>getTransport\<close>. The two maps are always written together, so the count is present
  where the source asserts it with \<^verbatim>\<open>!\<close>; the model reads an absent count as 0.
\<close>

definition getTransport :: "platform \<Rightarrow> string \<Rightarrow> nat comp" where
  "getTransport p name =
     bind (read transports) (\<lambda>ts.
     bind (if ts name = None
           then bind (createTransport p name) (\<lambda>t.
                modify (\<lambda>w. w\<lparr>transports := (transports w)(name \<mapsto> t),
                               transportRefs := (transportRefs w)(name \<mapsto> 0)\<rparr>))
           else ret ()) (\<lambda>_.
     bind (read (\<lambda>w. case transportRefs w name of Some n \<Rightarrow> n | None \<Rightarrow> 0)) (\<lambda>refs.
     bind (modify (\<lambda>w. w\<lparr>transportRefs := (transportRefs w)(name \<mapsto> refs + 1)\<rparr>)) (\<lambda>_.
     read (\<lambda>w. the (transports w name))))))"

definition releaseTransport :: "string \<Rightarrow> unit comp" where
  "releaseTransport name =
     bind (read (\<lambda>w. case transportRefs w name of Some n \<Rightarrow> n | None \<Rightarrow> 0)) (\<lambda>refs.
       if refs \<le> 1
       then bind (read (\<lambda>w. transports w name)) (\<lambda>t.
            bind (case t of Some a \<Rightarrow> t_destroy a | None \<Rightarrow> ret ()) (\<lambda>_.
            modify (\<lambda>w. w\<lparr>transports := (transports w)(name := None),
                           transportRefs := (transportRefs w)(name := None)\<rparr>)))
       else modify (\<lambda>w. w\<lparr>transportRefs := (transportRefs w)(name \<mapsto> refs - 1)\<rparr>))"

section \<open>Channels\<close>

text \<open>\<^verbatim>\<open>options.channelName || 'xts'\<close>\<close>

definition physical_name :: "options \<Rightarrow> string" where
  "physical_name opts = (if truthy (channelName opts) then the (channelName opts) else ''xts'')"

text \<open>The constructor's read of the persistence slot (lines 186 to 195).\<close>

definition restore :: "platform \<Rightarrow> nat \<Rightarrow> unit comp" where
  "restore p c =
     bind (read (\<lambda>w. cheap w c)) (\<lambda>ch.
       if persist (ch_options ch) \<and> has_window p
       then try_catch
              (bind (ls_getItem p (ch_storageKey ch)) (\<lambda>stored.
                 if truthy stored \<and> stored \<noteq> Some ''undefined'' \<and> trim (the stored) \<noteq> []
                 then bind (lift (ch_deserialize ch (the stored))) (\<lambda>v.
                      modify (\<lambda>w. w\<lparr>cheap := (cheap w)(c := (cheap w c)\<lparr>ch_value := v\<rparr>)\<rparr>))
                 else ret ()))
              (ret ())
       else ret ())"

definition alloc_channel :: "channel \<Rightarrow> nat comp" where
  "alloc_channel ch =
     (\<lambda>w. (Inr (next_c w), w\<lparr>cheap := (cheap w)(next_c w := ch), next_c := Suc (next_c w)\<rparr>))"

text \<open>
  \<^verbatim>\<open>new CrossTabChannel(key, initialValue, options)\<close>, returning the address of the new
  object. The object is entered in the heap with the fields of lines 167 to 184 set; the
  registry call of line 184 touches no channel, so it is made first. The factory
  \<^verbatim>\<open>createCrossTabChannel\<close> constructs one channel and hands each of its four functions
  on to the method of the same name, so it needs no definition of its own.
\<close>

definition new_channel :: "platform \<Rightarrow> string \<Rightarrow> jsval \<Rightarrow> options \<Rightarrow> nat comp" where
  "new_channel p key initialValue opts =
     bind (getTransport p (physical_name opts)) (\<lambda>t.
     bind (alloc_channel
             \<lparr>ch_key = key, ch_value = initialValue, ch_subscribers = [], ch_transport = t,
              ch_storageKey = ''xts-'' @ key,
              ch_serialize = (case serialize opts of Some f \<Rightarrow> f | None \<Rightarrow> JSON_stringify p),
              ch_deserialize = (case deserialize opts of Some f \<Rightarrow> f | None \<Rightarrow> JSON_parse p),
              ch_options = opts, ch_unsubscribe = False\<rparr>) (\<lambda>c.
     bind (restore p c) (\<lambda>_.
     bind (t_subscribe p t c) (\<lambda>_.
     bind (modify (\<lambda>w. w\<lparr>cheap := (cheap w)(c := (cheap w c)\<lparr>ch_unsubscribe := True\<rparr>)\<rparr>)) (\<lambda>_.
     ret c)))))"

definition getValue :: "nat \<Rightarrow> jsval comp" where
  "getValue c = read (\<lambda>w. ch_value (cheap w c))"

definition setValue :: "platform \<Rightarrow> nat \<Rightarrow> jsval \<Rightarrow> unit comp" where
  "setValue p c v =
     (if v = Undefined then ret ()
      else
        bind (modify (\<lambda>w. w\<lparr>cheap := (cheap w)(c := (cheap w c)\<lparr>ch_value := v\<rparr>)\<rparr>)) (\<lambda>_.
        bind (persist_value p c v) (\<lambda>_.
        bind (read (\<lambda>w. cheap w c)) (\<lambda>ch.
        bind (getTabId p) (\<lambda>me.
        bind (t_publish p (ch_transport ch)
                (JObj [(''value'', v), (''key'', JStr (ch_key ch)), (''tabId'', JStr me),
                       (''timestamp'', JNum (int (Date_now p)))])) (\<lambda>_.
        notify_subscribers p c v))))))"

definition subscribe :: "platform \<Rightarrow> nat \<Rightarrow> nat \<Rightarrow> unit comp" where
  "subscribe p c fn =
     bind (modify (\<lambda>w. w\<lparr>cheap := (cheap w)(c := (cheap w c)\<lparr>ch_subscribers := set_add fn (ch_subscribers (cheap w c))\<rparr>)\<rparr>)) (\<lambda>_.
     bind (read (\<lambda>w. ch_value (cheap w c))) (\<lambda>v.
     try_catch (call_subscriber p c v fn) (ret ())))"

text \<open>The function \<^verbatim>\<open>subscribe\<close> returned.\<close>

definition unsubscribe :: "nat \<Rightarrow> nat \<Rightarrow> unit comp" where
  "unsubscribe c fn =
     modify (\<lambda>w. w\<lparr>cheap := (cheap w)(c := (cheap w c)\<lparr>ch_subscribers := set_delete fn (ch_subscribers (cheap w c))\<rparr>)\<rparr>)"

definition destroy :: "nat \<Rightarrow> unit comp" where
  "destroy c =
     bind (read (\<lambda>w. cheap w c)) (\<lambda>ch.
     bind (if ch_unsubscribe ch then t_unsubscribe (ch_transport ch) c else ret ()) (\<lambda>_.
     bind (releaseTransport (physical_name (ch_options ch))) (\<lambda>_.
     modify (\<lambda>w. w\<lparr>cheap := (cheap w)(c := (cheap w c)\<lparr>ch_subscribers := []\<rparr>)\<rparr>))))"

section \<open>Events from other contexts\<close>

text \<open>
  The platform delivers a message posted elsewhere to the handler of an open native
  transport, and a storage change made elsewhere to every registered storage handler.
\<close>

definition deliver_message :: "platform \<Rightarrow> nat \<Rightarrow> jsval \<Rightarrow> unit comp" where
  "deliver_message p t data =
     bind (read (\<lambda>w. theap w t)) (\<lambda>tr.
       if t_strategy tr = NativeT \<and> \<not> t_destroyed tr then bc_onmessage p t data else ret ())"

definition storage_event :: "platform \<Rightarrow> string option \<Rightarrow> string option \<Rightarrow> unit comp" where
  "storage_event p ekey newValue =
     bind (read (\<lambda>w. filter (\<lambda>t. t_strategy (theap w t) = FallbackT \<and> \<not> t_destroyed (theap w t)
                                 \<and> has_window p) [0..<next_t w]))
       (for_each (\<lambda>t. try_catch (storage_handler p t ekey newValue) (ret ())))"

text \<open>The context before the module has done anything.\<close>

definition empty_transport :: transport where
  "empty_transport = \<lparr>t_strategy = NoopT, t_name = [], t_listeners = [], t_destroyed = False\<rparr>"

definition empty_channel :: channel where
  "empty_channel =
     \<lparr>ch_key = [], ch_value = Undefined, ch_subscribers = [], ch_transport = 0,
      ch_storageKey = [], ch_serialize = (\<lambda>v. Inl SyntaxError),
      ch_deserialize = (\<lambda>s. Inl SyntaxError),
      ch_options = \<lparr>channelName = None, persist = False, serialize = None, deserialize = None\<rparr>,
      ch_unsubscribe = False\<rparr>"

definition init_world :: world where
  "init_world =
     \<lparr>localStorage = Map.empty, sessionStorage = Map.empty, tabId = None,
      transports = Map.empty, transportRefs = Map.empty,
      theap = (\<lambda>t. empty_transport), next_t = 0,
      cheap = (\<lambda>c. empty_channel), next_c = 0,
      calls = [], forwarded = []\<rparr>"

section \<open>Callbacks that call back\<close>



text \<open>
  \<^verbatim>\<open>Set.prototype.forEach\<close> walks the members in insertion order and follows the set while
  it walks: a member deleted before its turn is not visited, a member added during the
  walk is visited at the end, \<^verbatim>\<open>clear()\<close> ends the walk. A running loop is a frame: the
  channel whose set it walks and the members still to visit. The frames of the loops
  that are running, the innermost first, go with the context; \<^verbatim>\<open>add\<close>, \<^verbatim>\<open>delete\<close> and
  \<^verbatim>\<open>clear\<close> on the set of channel \<open>c\<close> change every frame of \<open>c\<close>.
\<close>

type_synonym frame = "nat \<times> nat list"

type_synonym live = "world \<times> frame list"











section \<open>What each operation leaves behind\<close>

text \<open>
  The functions of this section are not code of the library. Each names the context an
  operation produces, so that the lemmas further down can state the operation's result as
  one equation and the properties can be read off it.
\<close>

text \<open>A computation that returns to its caller from every context.\<close>

definition no_throw :: "'a comp \<Rightarrow> bool" where
  "no_throw m = (\<forall>w. \<exists>x w'. m w = (Inr x, w'))"

definition run :: "'a comp \<Rightarrow> world \<Rightarrow> world" where
  "run m w = snd (m w)"

text \<open>The identity \<^verbatim>\<open>getTabId()\<close> returns in a context, and the contexts in which it is
  already settled: there the call changes nothing.\<close>

definition local_identity :: "platform \<Rightarrow> world \<Rightarrow> string" where
  "local_identity p w = (case fst (getTabId p w) of Inr me \<Rightarrow> me | Inl e \<Rightarrow> [])"

definition knows :: "platform \<Rightarrow> world \<Rightarrow> string \<Rightarrow> bool" where
  "knows p w me = (if has_window p then tabId w = Some me \<and> me \<noteq> [] else me = ''server'')"

text \<open>\<open>localStorage\<close> after the persistence step of channel \<open>ch\<close> for value \<open>v\<close>.\<close>

definition persisted :: "platform \<Rightarrow> channel \<Rightarrow> jsval \<Rightarrow> (string \<rightharpoonup> string) \<Rightarrow> (string \<rightharpoonup> string)" where
  "persisted p ch v store =
     (if persist (ch_options ch) \<and> has_window p
      then (case ch_serialize ch v of
              Inl e \<Rightarrow> store
            | Inr s \<Rightarrow> if s \<noteq> [] \<and> s \<noteq> ''undefined'' \<and> \<not> ls_set_fails p (ch_storageKey ch) s
                       then store(ch_storageKey ch \<mapsto> s) else store)
      else store)"

text \<open>The three tests of the constructor's listener, and the context after it ran.\<close>

definition accepts :: "channel \<Rightarrow> jsval \<Rightarrow> bool" where
  "accepts ch msg = (is_object msg \<and> get_prop msg ''key'' = JStr (ch_key ch)
                      \<and> get_prop msg ''value'' \<noteq> Undefined)"

definition received :: "platform \<Rightarrow> nat \<Rightarrow> jsval \<Rightarrow> world \<Rightarrow> world" where
  "received p c msg w =
     (if accepts (cheap w c) msg
      then w\<lparr>localStorage := persisted p (cheap w c) (get_prop msg ''value'') (localStorage w),
             cheap := (cheap w)(c := (cheap w c)\<lparr>ch_value := get_prop msg ''value''\<rparr>),
             calls := calls w @ map (\<lambda>fn. (c, fn, get_prop msg ''value'')) (ch_subscribers (cheap w c))\<rparr>
      else w)"

definition delivered :: "platform \<Rightarrow> nat \<Rightarrow> jsval \<Rightarrow> nat \<Rightarrow> world \<Rightarrow> world" where
  "delivered p t msg fn w = received p fn msg (w\<lparr>forwarded := forwarded w @ [(t, fn, msg)]\<rparr>)"

text \<open>\<open>localStorage\<close> after transport \<open>tr\<close> published the object \<open>env\<close>.\<close>

definition published :: "platform \<Rightarrow> transport \<Rightarrow> jsval \<Rightarrow> (string \<rightharpoonup> string) \<Rightarrow> (string \<rightharpoonup> string)" where
  "published p tr env store =
     (if t_strategy tr = FallbackT \<and> has_window p
      then (case JSON_stringify p env of
              Inl e \<Rightarrow> store
            | Inr s \<Rightarrow> if ls_set_fails p (slot_of tr) s then store else store(slot_of tr \<mapsto> s))
      else store)"

text \<open>The envelope \<^verbatim>\<open>setValue\<close> builds.\<close>

definition envelope :: "platform \<Rightarrow> jsval \<Rightarrow> string \<Rightarrow> string \<Rightarrow> jsval" where
  "envelope p v key me =
     JObj [(''value'', v), (''key'', JStr key), (''tabId'', JStr me),
           (''timestamp'', JNum (int (Date_now p)))]"

text \<open>The shape \<^verbatim>\<open>createTransport\<close> chooses, and the object it allocates.\<close>

definition choose_strategy :: "platform \<Rightarrow> string \<Rightarrow> strategy" where
  "choose_strategy p name =
     (if \<not> has_window p then NoopT
      else if has_BroadcastChannel p \<and> \<not> bc_construct_fails p name then NativeT
      else FallbackT)"

definition fresh_transport :: "platform \<Rightarrow> string \<Rightarrow> transport" where
  "fresh_transport p name =
     \<lparr>t_strategy = choose_strategy p name, t_name = name, t_listeners = [], t_destroyed = False\<rparr>"

text \<open>The reference count of a physical channel name; an absent entry counts 0.\<close>

definition refcount :: "world \<Rightarrow> string \<Rightarrow> int" where
  "refcount w name = (case transportRefs w name of Some n \<Rightarrow> n | None \<Rightarrow> 0)"

definition acquired :: "platform \<Rightarrow> string \<Rightarrow> world \<Rightarrow> world" where
  "acquired p name w =
     (case transports w name of
        None \<Rightarrow> w\<lparr>transports := (transports w)(name \<mapsto> next_t w),
                   transportRefs := (transportRefs w)(name \<mapsto> 1),
                   theap := (theap w)(next_t w := fresh_transport p name),
                   next_t := Suc (next_t w)\<rparr>
      | Some a \<Rightarrow> w\<lparr>transportRefs := (transportRefs w)(name \<mapsto> refcount w name + 1)\<rparr>)"

definition torn_down :: "transport \<Rightarrow> transport" where
  "torn_down tr = (case t_strategy tr of
       NoopT \<Rightarrow> tr\<lparr>t_destroyed := True\<rparr>
     | _ \<Rightarrow> tr\<lparr>t_destroyed := True, t_listeners := []\<rparr>)"

definition released :: "string \<Rightarrow> world \<Rightarrow> world" where
  "released name w =
     (if refcount w name \<le> 1
      then w\<lparr>theap := (case transports w name of
                          Some a \<Rightarrow> (theap w)(a := torn_down (theap w a))
                        | None \<Rightarrow> theap w),
             transports := (transports w)(name := None),
             transportRefs := (transportRefs w)(name := None)\<rparr>
      else w\<lparr>transportRefs := (transportRefs w)(name \<mapsto> refcount w name - 1)\<rparr>)"

definition unlistened :: "nat \<Rightarrow> transport \<Rightarrow> transport" where
  "unlistened fn tr = (case t_strategy tr of
       NoopT \<Rightarrow> tr
     | _ \<Rightarrow> tr\<lparr>t_listeners := set_delete fn (t_listeners tr)\<rparr>)"

definition listening :: "nat \<Rightarrow> nat \<Rightarrow> world \<Rightarrow> world" where
  "listening t fn w =
     w\<lparr>theap := (theap w)(t := (theap w t)\<lparr>t_listeners := set_add fn (t_listeners (theap w t))\<rparr>)\<rparr>"

text \<open>The message the fallback \<^verbatim>\<open>subscribe\<close> of transport \<open>tr\<close> hands to a new listener.\<close>

definition stored_message :: "platform \<Rightarrow> transport \<Rightarrow> (string \<rightharpoonup> string) \<Rightarrow> jsval option" where
  "stored_message p tr store =
     (if t_strategy tr = FallbackT \<and> has_window p \<and> \<not> ls_get_fails p (slot_of tr)
      then (case store (slot_of tr) of
              None \<Rightarrow> None
            | Some s \<Rightarrow> if s = [] then None
                        else (case JSON_parse p s of
                                Inl e \<Rightarrow> None
                              | Inr msg \<Rightarrow> if is_object msg \<and> get_prop msg ''value'' \<noteq> Undefined
                                           then Some msg else None))
      else None)"

definition subscribed :: "platform \<Rightarrow> nat \<Rightarrow> nat \<Rightarrow> world \<Rightarrow> world" where
  "subscribed p t fn w =
     (if t_strategy (theap w t) = NoopT then w
      else case stored_message p (theap w t) (localStorage w) of
             None \<Rightarrow> listening t fn w
           | Some msg \<Rightarrow> delivered p t msg fn (listening t fn w))"

text \<open>The value a channel has after the constructor's read of its persistence slot.\<close>

definition restored :: "platform \<Rightarrow> channel \<Rightarrow> (string \<rightharpoonup> string) \<Rightarrow> jsval" where
  "restored p ch store =
     (if persist (ch_options ch) \<and> has_window p \<and> \<not> ls_get_fails p (ch_storageKey ch)
      then (case store (ch_storageKey ch) of
              None \<Rightarrow> ch_value ch
            | Some s \<Rightarrow> if s \<noteq> [] \<and> s \<noteq> ''undefined'' \<and> trim s \<noteq> []
                        then (case ch_deserialize ch s of Inl e \<Rightarrow> ch_value ch | Inr v \<Rightarrow> v)
                        else ch_value ch)
      else ch_value ch)"

definition blank_channel :: "platform \<Rightarrow> string \<Rightarrow> jsval \<Rightarrow> options \<Rightarrow> nat \<Rightarrow> channel" where
  "blank_channel p key initialValue opts t =
     \<lparr>ch_key = key, ch_value = initialValue, ch_subscribers = [], ch_transport = t,
      ch_storageKey = ''xts-'' @ key,
      ch_serialize = (case serialize opts of Some f \<Rightarrow> f | None \<Rightarrow> JSON_stringify p),
      ch_deserialize = (case deserialize opts of Some f \<Rightarrow> f | None \<Rightarrow> JSON_parse p),
      ch_options = opts, ch_unsubscribe = False\<rparr>"

text \<open>The transport object a channel constructed on \<open>name\<close> will use.\<close>

definition joins :: "platform \<Rightarrow> world \<Rightarrow> string \<Rightarrow> transport" where
  "joins p w name = (case transports w name of Some a \<Rightarrow> theap w a | None \<Rightarrow> fresh_transport p name)"

definition constructed :: "platform \<Rightarrow> string \<Rightarrow> jsval \<Rightarrow> options \<Rightarrow> world \<Rightarrow> world" where
  "constructed p key initialValue opts w =
     (let w1 = acquired p (physical_name opts) w;
          t = (case transports w (physical_name opts) of None \<Rightarrow> next_t w | Some a \<Rightarrow> a);
          c = next_c w;
          ch = blank_channel p key initialValue opts t;
          w2 = w1\<lparr>next_c := Suc c,
                  cheap := (cheap w1)(c := ch\<lparr>ch_value := restored p ch (localStorage w1)\<rparr>)\<rparr>;
          w3 = subscribed p t c w2
      in w3\<lparr>cheap := (cheap w3)(c := (cheap w3 c)\<lparr>ch_unsubscribe := True\<rparr>)\<rparr>)"

text \<open>
  The message a channel constructed on the physical channel \<open>name\<close> is handed at subscribe
  time, and the value the new channel has when its constructor returns: the restored (or
  initial) value, unless a message for its key is handed to it.
\<close>

definition replay_for :: "platform \<Rightarrow> world \<Rightarrow> string \<Rightarrow> jsval option" where
  "replay_for p w name = stored_message p (joins p w name) (localStorage w)"

definition first_value :: "platform \<Rightarrow> world \<Rightarrow> string \<Rightarrow> jsval \<Rightarrow> options \<Rightarrow> jsval" where
  "first_value p w key initialValue opts =
     (let v0 = restored p (blank_channel p key initialValue opts 0) (localStorage w)
      in case replay_for p w (physical_name opts) of
           None \<Rightarrow> v0
         | Some msg \<Rightarrow> if get_prop msg ''key'' = JStr key then get_prop msg ''value'' else v0)"

text \<open>The calls channel \<open>c\<close> has made to its subscribers, and a step that leaves the
  channel as it was and makes it call nobody.\<close>

definition calls_of :: "nat \<Rightarrow> world \<Rightarrow> (nat \<times> nat \<times> jsval) list" where
  "calls_of c w = filter (\<lambda>x. fst x = c) (calls w)"

definition untouched :: "nat \<Rightarrow> world \<Rightarrow> world \<Rightarrow> bool" where
  "untouched c w w' = (cheap w' c = cheap w c \<and> calls_of c w' = calls_of c w)"

text \<open>Every subscriber set holds each callback once, as a \<^verbatim>\<open>Set\<close> does.\<close>

definition sets_ok :: "world \<Rightarrow> bool" where
  "sets_ok w = (\<forall>c. distinct (ch_subscribers (cheap w c)))"

section \<open>Histories of the registry\<close>

datatype reg_op = Acquire string | Release string

fun run_op :: "platform \<Rightarrow> reg_op \<Rightarrow> world \<Rightarrow> world" where
  "run_op p (Acquire n) w = snd (getTransport p n w)"
| "run_op p (Release n) w = snd (releaseTransport n w)"

fun run_ops :: "platform \<Rightarrow> reg_op list \<Rightarrow> world \<Rightarrow> world" where
  "run_ops p [] w = w"
| "run_ops p (op # ops) w = run_ops p ops (run_op p op w)"

text \<open>
  The discipline of the callers: a name is released only while it is held, so that every
  release answers one earlier acquire. \<open>tally\<close> is the count the discipline predicts:
  one up for an acquire, one down for a release.
\<close>

fun disciplined :: "(string \<Rightarrow> int) \<Rightarrow> reg_op list \<Rightarrow> bool" where
  "disciplined cnt [] = True"
| "disciplined cnt (Acquire n # ops) = disciplined (cnt(n := cnt n + 1)) ops"
| "disciplined cnt (Release n # ops) = (0 < cnt n \<and> disciplined (cnt(n := cnt n - 1)) ops)"

fun tally :: "(string \<Rightarrow> int) \<Rightarrow> reg_op list \<Rightarrow> string \<Rightarrow> int" where
  "tally cnt [] = cnt"
| "tally cnt (Acquire n # ops) = tally (cnt(n := cnt n + 1)) ops"
| "tally cnt (Release n # ops) = tally (cnt(n := cnt n - 1)) ops"

text \<open>
  A registry in order: both maps have the same names; every count is at least 1; a
  registered transport is allocated and not destroyed; no transport is registered under
  two names; every allocated transport that is not registered has been destroyed.
\<close>

definition registry_ok :: "world \<Rightarrow> bool" where
  "registry_ok w =
     ((\<forall>n. (transports w n = None) = (transportRefs w n = None))
      \<and> (\<forall>n k. transportRefs w n = Some k \<longrightarrow> 1 \<le> k)
      \<and> (\<forall>n a. transports w n = Some a \<longrightarrow> a < next_t w \<and> \<not> t_destroyed (theap w a))
      \<and> (\<forall>n m a. transports w n = Some a \<longrightarrow> transports w m = Some a \<longrightarrow> n = m)
      \<and> (\<forall>a<next_t w. (\<forall>n. transports w n \<noteq> Some a) \<longrightarrow> t_destroyed (theap w a)))"

section \<open>Two concrete browsers\<close>

text \<open>
  \<open>json_text\<close> writes a value as \<^verbatim>\<open>JSON.stringify\<close> does for the data used here (strings
  escape the quote and the backslash; a property whose value is \<^verbatim>\<open>undefined\<close> is left
  out, an \<^verbatim>\<open>undefined\<close> array element is \<^verbatim>\<open>null\<close>). The strings used here hold no
  control character, which \<^verbatim>\<open>JSON.stringify\<close> would escape as well, and the numbers are
  integers below \<^verbatim>\<open>1e21\<close>, which it writes in full.
\<close>

fun commas :: "string list \<Rightarrow> string" where
  "commas [] = []"
| "commas [x] = x"
| "commas (x # y # ys) = x @ '','' @ commas (y # ys)"

definition json_string :: "string \<Rightarrow> string" where
  "json_string s =
     [CHR 0x22] @ concat (map (\<lambda>c. if c = CHR 0x22 \<or> c = CHR 0x5C then [CHR 0x5C, c] else [c]) s)
     @ [CHR 0x22]"

fun json_text :: "jsval \<Rightarrow> string"
  and json_elems :: "jsval list \<Rightarrow> string list"
  and json_props :: "(string \<times> jsval) list \<Rightarrow> string list" where
  "json_text Undefined = ''null''"
| "json_text Null = ''null''"
| "json_text (JBool b) = (if b then ''true'' else ''false'')"
| "json_text (JNum n) = (if n < 0 then ''-'' @ digits (nat (- n)) else digits (nat n))"
| "json_text (JStr s) = json_string s"
| "json_text (JArr xs) = ''['' @ commas (json_elems xs) @ '']''"
| "json_text (JObj fs) = ''{'' @ commas (json_props fs) @ ''}''"
| "json_elems [] = []"
| "json_elems (x # xs) = json_text x # json_elems xs"
| "json_props [] = []"
| "json_props (f # fs) =
     (if snd f = Undefined then json_props fs
      else (json_string (fst f) @ '':'' @ json_text (snd f)) # json_props fs)"

definition demo_now :: nat where
  "demo_now = 1700000000000"

definition demo_random :: string where
  "demo_random = ''k3f9x0a2b''"

definition demo_id :: string where
  "demo_id = digits demo_now @ ''-'' @ demo_random"

definition demo_envelope :: "jsval \<Rightarrow> string \<Rightarrow> jsval" where
  "demo_envelope v key =
     JObj [(''value'', v), (''key'', JStr key), (''tabId'', JStr demo_id),
           (''timestamp'', JNum (int demo_now))]"

text \<open>A message from another tab.\<close>

definition remote_envelope :: jsval where
  "remote_envelope =
     JObj [(''value'', JStr ''remote''), (''key'', JStr ''b''), (''tabId'', JStr ''other''),
           (''timestamp'', JNum 7)]"

text \<open>
  The parser of the concrete browsers inverts \<open>json_text\<close> on the values listed and
  rejects every other text.
\<close>

definition demo_values :: "jsval list" where
  "demo_values =
     [JStr ''x'', JStr ''y'', JStr ''b'',
      demo_envelope (JStr ''x'') ''k'', demo_envelope (JStr ''y'') ''k'',
      demo_envelope (JStr ''b'') ''k'', remote_envelope]"

definition demo_stringify :: "jsval \<Rightarrow> exn + string" where
  "demo_stringify v = (if v = Undefined then Inr [] else Inr (json_text v))"

definition demo_parse :: "string \<Rightarrow> exn + jsval" where
  "demo_parse s = (case map_of (map (\<lambda>v. (json_text v, v)) demo_values) s of
                     Some v \<Rightarrow> Inr v | None \<Rightarrow> Inl SyntaxError)"

text \<open>
  \<open>demo_browser\<close> has \<^verbatim>\<open>BroadcastChannel\<close>, with the echo of the test mock; in
  \<open>old_browser\<close> it is missing and the storage fallback is used. Nothing of the platform
  throws; the consumer callback 13 throws on every argument.
\<close>

definition demo_browser :: platform where
  "demo_browser =
     \<lparr>has_window = True, has_BroadcastChannel = True,
      bc_construct_fails = (\<lambda>name. False), bc_post_fails = (\<lambda>m. False), bc_echo = True,
      ls_get_fails = (\<lambda>k. False), ls_set_fails = (\<lambda>k v. False),
      ss_get_fails = (\<lambda>k. False), ss_set_fails = (\<lambda>k v. False),
      JSON_stringify = demo_stringify, JSON_parse = demo_parse,
      Date_now = demo_now, Math_random36 = demo_random,
      callback_throws = (\<lambda>fn v. fn = 13)\<rparr>"

definition old_browser :: platform where
  "old_browser = demo_browser\<lparr>has_BroadcastChannel := False\<rparr>"

definition plain :: options where
  "plain = \<lparr>channelName = None, persist = False, serialize = None, deserialize = None\<rparr>"

definition persistent :: options where
  "persistent = \<lparr>channelName = None, persist = True, serialize = None, deserialize = None\<rparr>"

section \<open>Concrete runs\<close>

text \<open>
  In the old browser: a channel for key \<^verbatim>\<open>'k'\<close> is constructed (\<open>w_a\<close>), it sets
  \<^verbatim>\<open>'b'\<close> (\<open>w_b\<close>), and a second channel for the same key is constructed (\<open>w_c\<close>).
\<close>

definition w_a :: world where
  "w_a = run (new_channel old_browser ''k'' (JStr ''a'') plain) init_world"

definition w_b :: world where
  "w_b = run (setValue old_browser 0 (JStr ''b'')) w_a"

definition w_c :: world where
  "w_c = run (new_channel old_browser ''k'' (JStr ''c'') plain) w_b"

text \<open>
  In the browser with \<^verbatim>\<open>BroadcastChannel\<close>: a channel for key \<^verbatim>\<open>'k'\<close> is constructed
  (\<open>n_a\<close>) and the callbacks 11, 13 and 12 subscribe to it in this order (\<open>n_s\<close>).
\<close>

definition n_a :: world where
  "n_a = run (new_channel demo_browser ''k'' (JStr ''a'') plain) init_world"

definition n_s :: world where
  "n_s = run (subscribe demo_browser 0 12)
           (run (subscribe demo_browser 0 13)
             (run (subscribe demo_browser 0 11) n_a))"

text \<open>
  A browser in which every primitive throws and every consumer callback throws; a
  persistent channel for key \<^verbatim>\<open>'k'\<close> with the subscribers 11 and 12 in it (\<open>h_s\<close>).
\<close>

definition hostile :: platform where
  "hostile =
     \<lparr>has_window = True, has_BroadcastChannel = True,
      bc_construct_fails = (\<lambda>name. True), bc_post_fails = (\<lambda>m. True), bc_echo = False,
      ls_get_fails = (\<lambda>k. True), ls_set_fails = (\<lambda>k v. True),
      ss_get_fails = (\<lambda>k. True), ss_set_fails = (\<lambda>k v. True),
      JSON_stringify = (\<lambda>v. Inl DataCloneError), JSON_parse = (\<lambda>s. Inl SyntaxError),
      Date_now = demo_now, Math_random36 = demo_random,
      callback_throws = (\<lambda>fn v. True)\<rparr>"

definition h_s :: world where
  "h_s = run (subscribe hostile 0 12)
           (run (subscribe hostile 0 11)
             (run (new_channel hostile ''k'' (JStr ''a'') persistent) init_world))"

text \<open>
  Two channels, for the keys \<^verbatim>\<open>'a'\<close> and \<^verbatim>\<open>'b'\<close>, on the default physical channel,
  each with one subscriber: in the browser with \<^verbatim>\<open>BroadcastChannel\<close> (\<open>n_two\<close>) and in
  the old browser (\<open>o_two\<close>).
\<close>

definition n_two :: world where
  "n_two = run (subscribe demo_browser 1 22)
            (run (subscribe demo_browser 0 21)
              (run (new_channel demo_browser ''b'' (JStr ''b0'') plain)
                (run (new_channel demo_browser ''a'' (JStr ''a0'') plain) init_world)))"

definition o_two :: world where
  "o_two = run (subscribe old_browser 1 22)
            (run (subscribe old_browser 0 21)
              (run (new_channel old_browser ''b'' (JStr ''b0'') plain)
                (run (new_channel old_browser ''a'' (JStr ''a0'') plain) init_world)))"

text \<open>A history of the registry that keeps the discipline.\<close>

definition demo_history :: "reg_op list" where
  "demo_history = [Acquire ''xts'', Acquire ''xts'', Release ''xts'', Acquire ''other'', Release ''xts'']"

text \<open>
  In the old browser, with two physical channels: a channel for key \<^verbatim>\<open>'k'\<close> on the
  physical channel \<^verbatim>\<open>'other'\<close> (\<open>p_0\<close>) sets \<^verbatim>\<open>'y'\<close> (\<open>p_1\<close>); a persistent channel
  for the same key on the default physical channel is constructed (\<open>p_2\<close>) and sets
  \<^verbatim>\<open>'x'\<close> (\<open>p_3\<close>); then a fresh persistent channel for the key is constructed on
  \<^verbatim>\<open>'other'\<close> (\<open>p_4\<close>).
\<close>

definition elsewhere :: options where
  "elsewhere = \<lparr>channelName = Some ''other'', persist = False, serialize = None, deserialize = None\<rparr>"

definition elsewhere_persistent :: options where
  "elsewhere_persistent = \<lparr>channelName = Some ''other'', persist = True, serialize = None, deserialize = None\<rparr>"

definition p_0 :: world where
  "p_0 = run (new_channel old_browser ''k'' (JStr ''i0'') elsewhere) init_world"

definition p_1 :: world where
  "p_1 = run (setValue old_browser 0 (JStr ''y'')) p_0"

definition p_2 :: world where
  "p_2 = run (new_channel old_browser ''k'' (JStr ''i1'') persistent) p_1"

definition p_3 :: world where
  "p_3 = run (setValue old_browser 1 (JStr ''x'')) p_2"

definition p_4 :: world where
  "p_4 = run (new_channel old_browser ''k'' (JStr ''i2'') elsewhere_persistent) p_3"

text \<open>
  In the old browser, on the default physical channel: a persistent channel for key
  \<^verbatim>\<open>'k'\<close> is constructed (\<open>q_0\<close>) and sets \<^verbatim>\<open>'x'\<close> (\<open>q_1\<close>).
\<close>

definition q_0 :: world where
  "q_0 = run (new_channel old_browser ''k'' (JStr ''a'') persistent) init_world"

definition q_1 :: world where
  "q_1 = run (setValue old_browser 0 (JStr ''x'')) q_0"

text \<open>
  In the old browser: a persistent channel whose key is the name of its physical channel,
  \<^verbatim>\<open>'xts'\<close>, with a \<open>serialize\<close> that returns the empty string (\<open>r_0\<close>), sets \<^verbatim>\<open>'v'\<close>
  (\<open>r_1\<close>).
\<close>

definition mute :: options where
  "mute = \<lparr>channelName = None, persist = True, serialize = Some (\<lambda>v. Inr []), deserialize = None\<rparr>"

definition r_0 :: world where
  "r_0 = run (new_channel old_browser ''xts'' (JStr ''a'') mute) init_world"

definition r_1 :: world where
  "r_1 = run (setValue old_browser 0 (JStr ''v'')) r_0"

text \<open>
  In the old browser: a persistent channel, with the default serializer, whose key is the
  name of its physical channel (\<open>s_0\<close>) sets \<^verbatim>\<open>'x'\<close> (\<open>s_1\<close>).
\<close>

definition s_0 :: world where
  "s_0 = run (new_channel old_browser ''xts'' (JStr ''a'') persistent) init_world"

definition s_1 :: world where
  "s_1 = run (setValue old_browser 0 (JStr ''x'')) s_0"



section \<open>Lemmas: computations that return\<close>

lemma no_throw_ret [intro!, simp]: "no_throw (ret x)"
  by (simp add: no_throw_def ret_def)

lemma no_throw_read [intro!, simp]: "no_throw (read f)"
  by (simp add: no_throw_def read_def)

lemma no_throw_modify [intro!, simp]: "no_throw (modify f)"
  by (simp add: no_throw_def modify_def)

lemma no_throwD: "no_throw m \<Longrightarrow> \<exists>x w'. m w = (Inr x, w')"
  by (simp add: no_throw_def)

lemma no_throw_bind [intro!]:
  assumes "no_throw m" and "\<And>x. no_throw (f x)"
  shows "no_throw (bind m f)"
proof -
  have "\<exists>y w''. bind m f w = (Inr y, w'')" for w
  proof -
    obtain x w' where m: "m w = (Inr x, w')" using no_throwD [OF assms(1)] by blast
    obtain y w'' where "f x w' = (Inr y, w'')" using no_throwD [OF assms(2)] by blast
    with m show ?thesis by (simp add: bind_def)
  qed
  then show ?thesis by (simp add: no_throw_def)
qed

lemma no_throw_try_catch [intro!]:
  assumes "no_throw h"
  shows "no_throw (try_catch m h)"
proof -
  have "\<exists>y w''. try_catch m h w = (Inr y, w'')" for w
  proof (cases "m w")
    case (Pair r w')
    show ?thesis
    proof (cases r)
      case (Inl e)
      obtain y w'' where "h w' = (Inr y, w'')" using no_throwD [OF assms] by blast
      with Pair Inl show ?thesis by (simp add: try_catch_def)
    next
      case (Inr x)
      with Pair show ?thesis by (simp add: try_catch_def)
    qed
  qed
  then show ?thesis by (simp add: no_throw_def)
qed

lemma no_throw_for_each [intro!]:
  assumes "\<And>x. no_throw (f x)"
  shows "no_throw (for_each f xs)"
  using assms by (induction xs) auto

lemma no_throw_if [intro!]:
  "(c \<Longrightarrow> no_throw a) \<Longrightarrow> (\<not> c \<Longrightarrow> no_throw b) \<Longrightarrow> no_throw (if c then a else b)"
  by simp

lemma no_throw_getTabId: "no_throw (getTabId p)"
  unfolding getTabId_def read_stored_tabId_def
  by (auto split: option.split)

lemma no_throw_notify: "no_throw (notify_subscribers p c v)"
  unfolding notify_subscribers_def by auto

lemma no_throw_persist_value: "no_throw (persist_value p c v)"
  unfolding persist_value_def by auto



section \<open>Lemmas: the result of each operation\<close>

lemmas comp_defs = bind_def ret_def throw_def try_catch_def modify_def read_def lift_def

lemma fresh_tabId_nonempty: "fresh_tabId p \<noteq> []"
  by (simp add: fresh_tabId_def)

lemma getTabId_effect:
  "\<exists>me S T. getTabId p w = (Inr me, w\<lparr>sessionStorage := S, tabId := T\<rparr>)
            \<and> knows p (w\<lparr>sessionStorage := S, tabId := T\<rparr>) me"
proof (cases "has_window p")
  case False
  then have "getTabId p w = (Inr ''server'', w\<lparr>sessionStorage := sessionStorage w, tabId := tabId w\<rparr>)"
    by (simp add: getTabId_def comp_defs)
  moreover have "knows p (w\<lparr>sessionStorage := sessionStorage w, tabId := tabId w\<rparr>) ''server''"
    using False by (simp add: knows_def)
  ultimately show ?thesis by blast
next
  case win: True
  show ?thesis
  proof (cases "truthy (tabId w)")
    case True
    then obtain me where me: "tabId w = Some me" "me \<noteq> []"
      by (auto simp: truthy_def split: option.splits)
    have "getTabId p w = (Inr me, w\<lparr>sessionStorage := sessionStorage w, tabId := tabId w\<rparr>)"
      using win True me by (simp add: getTabId_def comp_defs)
    moreover have "knows p (w\<lparr>sessionStorage := sessionStorage w, tabId := tabId w\<rparr>) me"
      using win me by (simp add: knows_def)
    ultimately show ?thesis by blast
  next
    case cold: False
    show ?thesis
    proof (cases "\<not> ss_get_fails p ''xts-tid'' \<and> truthy (sessionStorage w ''xts-tid'')")
      case True
      then obtain s where s: "sessionStorage w ''xts-tid'' = Some s" "s \<noteq> []"
        by (auto simp: truthy_def split: option.splits)
      have "getTabId p w = (Inr s, w\<lparr>sessionStorage := sessionStorage w, tabId := Some s\<rparr>)"
        using win cold True s
        by (simp add: getTabId_def read_stored_tabId_def ss_getItem_def comp_defs)
      moreover have "knows p (w\<lparr>sessionStorage := sessionStorage w, tabId := Some s\<rparr>) s"
        using win s by (simp add: knows_def)
      ultimately show ?thesis by blast
    next
      case False
      then have rd: "read_stored_tabId p w = (Inr None, w)"
        by (auto simp add: read_stored_tabId_def ss_getItem_def comp_defs)
      let ?S = "if ss_set_fails p ''xts-tid'' (fresh_tabId p) then sessionStorage w
                else (sessionStorage w)(''xts-tid'' \<mapsto> fresh_tabId p)"
      have "getTabId p w = (Inr (fresh_tabId p), w\<lparr>sessionStorage := ?S, tabId := Some (fresh_tabId p)\<rparr>)"
        using win cold rd
        by (simp add: getTabId_def ss_setItem_def comp_defs)
      moreover have "knows p (w\<lparr>sessionStorage := ?S, tabId := Some (fresh_tabId p)\<rparr>) (fresh_tabId p)"
        using win by (simp add: knows_def fresh_tabId_nonempty)
      ultimately show ?thesis by blast
    qed
  qed
qed

lemma knows_getTabId: "knows p w me \<Longrightarrow> getTabId p w = (Inr me, w)"
  by (auto simp: knows_def getTabId_def truthy_def comp_defs)

lemma for_each_effect:
  assumes "\<And>x w. f x w = (Inr (), g x w)"
  shows "for_each f xs w = (Inr (), foldl (\<lambda>w x. g x w) w xs)"
proof -
  have f: "f = (\<lambda>x w. (Inr (), g x w))"
    by (intro ext) (rule assms)
  have "for_each (\<lambda>x w. (Inr (), g x w)) xs w = (Inr (), foldl (\<lambda>w x. g x w) w xs)"
    by (induction xs arbitrary: w) (simp_all add: ret_def bind_def)
  then show ?thesis by (simp add: f)
qed

lemma notify_one:
  "try_catch (call_subscriber p c v fn) (ret ()) w = (Inr (), w\<lparr>calls := calls w @ [(c, fn, v)]\<rparr>)"
  by (simp add: try_catch_def call_subscriber_def ret_def)

lemma foldl_calls:
  "foldl (\<lambda>w x. w\<lparr>calls := calls w @ [(c, x, v)]\<rparr>) w xs = w\<lparr>calls := calls w @ map (\<lambda>fn. (c, fn, v)) xs\<rparr>"
  by (induction xs arbitrary: w) simp_all

lemma for_each_notify:
  "for_each (\<lambda>fn. try_catch (call_subscriber p c v fn) (ret ())) xs w
     = (Inr (), w\<lparr>calls := calls w @ map (\<lambda>fn. (c, fn, v)) xs\<rparr>)"
  by (simp add: for_each_effect [where g = "\<lambda>x w. w\<lparr>calls := calls w @ [(c, x, v)]\<rparr>", OF notify_one] foldl_calls)

lemma notify_subscribers_effect:
  "notify_subscribers p c v w
     = (Inr (), w\<lparr>calls := calls w @ map (\<lambda>fn. (c, fn, v)) (ch_subscribers (cheap w c))\<rparr>)"
  by (simp add: notify_subscribers_def bind_def read_def for_each_notify)

lemma persist_value_effect:
  "persist_value p c v w = (Inr (), w\<lparr>localStorage := persisted p (cheap w c) v (localStorage w)\<rparr>)"
  by (simp add: persist_value_def persisted_def ls_setItem_def comp_defs split: sum.splits)



lemma persisted_ch_value [simp]: "persisted p (ch\<lparr>ch_value := v'\<rparr>) v = persisted p ch v"
  by (simp add: persisted_def fun_eq_iff split: sum.splits)

lemma chan_listener_effect: "chan_listener p c msg w = (Inr (), received p c msg w)"
  by (simp add: chan_listener_def received_def accepts_def bind_def read_def ret_def modify_def
        persist_value_effect notify_subscribers_effect)

lemma invoke_listener_effect: "invoke_listener p t msg fn w = (Inr (), delivered p t msg fn w)"
  by (simp add: invoke_listener_def delivered_def bind_def modify_def chan_listener_effect)

lemma forward_effect:
  "forward p t msg w = (Inr (), foldl (\<lambda>w fn. delivered p t msg fn w) w (t_listeners (theap w t)))"
proof -
  have step: "try_catch (invoke_listener p t msg fn) (ret ()) w' = (Inr (), delivered p t msg fn w')" for fn w'
    by (simp add: try_catch_def invoke_listener_effect)
  show ?thesis
    by (simp add: forward_def bind_def read_def for_each_effect [where f = "\<lambda>fn. try_catch (invoke_listener p t msg fn) (ret ())", OF step])
qed

lemma filter_forward_self:
  assumes "knows p w me" and "get_prop msg ''tabId'' = JStr me"
  shows "filter_forward p t msg w = (Inr (), w)"
  using assms by (simp add: filter_forward_def bind_def ret_def knows_getTabId)

lemma t_publish_self:
  assumes "knows p w me" and "is_object env" and "get_prop env ''tabId'' = JStr me"
  shows "t_publish p t env w = (Inr (), w\<lparr>localStorage := published p (theap w t) env (localStorage w)\<rparr>)"
proof (cases "t_strategy (theap w t)")
  case NoopT
  then show ?thesis by (simp add: t_publish_def published_def comp_defs)
next
  case NativeT
  have "bc_postMessage p t env w = (Inr (), w) \<or> (\<exists>e. bc_postMessage p t env w = (Inl e, w))"
    using filter_forward_self [OF assms(1,3)]
    by (simp add: bc_postMessage_def bc_onmessage_def comp_defs)
  then show ?thesis using NativeT assms(2)
    by (auto simp add: t_publish_def published_def envelope_of_def comp_defs)
next
  case FallbackT
  then show ?thesis using assms(2)
    by (simp add: t_publish_def published_def envelope_of_def ls_setItem_def comp_defs split: sum.splits)
qed

lemma setValue_effect:
  assumes "v \<noteq> Undefined"
  shows "\<exists>me S T. setValue p c v w =
     (Inr (), w\<lparr>localStorage := published p (theap w (ch_transport (cheap w c)))
                    (envelope p v (ch_key (cheap w c)) me)
                    (persisted p (cheap w c) v (localStorage w)),
                 sessionStorage := S, tabId := T,
                 cheap := (cheap w)(c := (cheap w c)\<lparr>ch_value := v\<rparr>),
                 calls := calls w @ map (\<lambda>fn. (c, fn, v)) (ch_subscribers (cheap w c))\<rparr>)
      \<and> knows p (w\<lparr>sessionStorage := S, tabId := T\<rparr>) me"
proof -
  let ?w1 = "w\<lparr>cheap := (cheap w)(c := (cheap w c)\<lparr>ch_value := v\<rparr>)\<rparr>"
  let ?w2 = "?w1\<lparr>localStorage := persisted p (cheap w c) v (localStorage w)\<rparr>"
  obtain me S T where g: "getTabId p ?w2 = (Inr me, ?w2\<lparr>sessionStorage := S, tabId := T\<rparr>)"
    and k: "knows p (?w2\<lparr>sessionStorage := S, tabId := T\<rparr>) me"
    using getTabId_effect [of p ?w2] by blast
  let ?env = "envelope p v (ch_key (cheap w c)) me"
  have pub: "t_publish p t ?env (?w2\<lparr>sessionStorage := S, tabId := T\<rparr>)
      = (Inr (), (?w2\<lparr>sessionStorage := S, tabId := T\<rparr>)\<lparr>localStorage :=
            published p (theap w t) ?env (persisted p (cheap w c) v (localStorage w))\<rparr>)" for t
    using t_publish_self [OF k, of ?env t] by (simp add: envelope_def)
  have "setValue p c v w =
     (Inr (), w\<lparr>localStorage := published p (theap w (ch_transport (cheap w c))) ?env
                    (persisted p (cheap w c) v (localStorage w)),
                 sessionStorage := S, tabId := T,
                 cheap := (cheap w)(c := (cheap w c)\<lparr>ch_value := v\<rparr>),
                 calls := calls w @ map (\<lambda>fn. (c, fn, v)) (ch_subscribers (cheap w c))\<rparr>)"
    using assms
    by (simp add: setValue_def bind_def modify_def read_def persist_value_effect g
          pub [unfolded envelope_def] envelope_def
          notify_subscribers_effect)
  moreover have "knows p (w\<lparr>sessionStorage := S, tabId := T\<rparr>) me"
    using k by (simp add: knows_def split: if_splits)
  ultimately show ?thesis by blast
qed



lemma createTransport_effect:
  "createTransport p name w =
     (Inr (next_t w), w\<lparr>theap := (theap w)(next_t w := fresh_transport p name), next_t := Suc (next_t w)\<rparr>)"
  by (simp add: createTransport_def choose_strategy_def fresh_transport_def alloc_transport_def comp_defs)

lemma getTransport_effect:
  "getTransport p name w =
     (Inr (case transports w name of None \<Rightarrow> next_t w | Some a \<Rightarrow> a), acquired p name w)"
  by (simp add: getTransport_def acquired_def refcount_def createTransport_effect comp_defs
        split: option.splits)

lemma t_destroy_effect:
  "t_destroy t w = (Inr (), w\<lparr>theap := (theap w)(t := torn_down (theap w t))\<rparr>)"
  by (simp add: t_destroy_def torn_down_def comp_defs split: strategy.splits)

lemma releaseTransport_effect: "releaseTransport name w = (Inr (), released name w)"
  by (simp add: releaseTransport_def released_def refcount_def t_destroy_effect comp_defs
        split: option.splits)

lemma t_unsubscribe_effect:
  "t_unsubscribe t fn w = (Inr (), w\<lparr>theap := (theap w)(t := unlistened fn (theap w t))\<rparr>)"
  by (simp add: t_unsubscribe_def unlistened_def comp_defs split: strategy.splits)

lemma destroy_calls: "calls (snd (destroy c w)) = calls w"
  by (simp add: destroy_def t_unsubscribe_effect releaseTransport_effect released_def comp_defs
      split: option.splits)

lemma destroy_subscribers: "ch_subscribers (cheap (snd (destroy c w)) c) = []"
  by (simp add: destroy_def t_unsubscribe_effect releaseTransport_effect released_def comp_defs
      split: option.splits)

lemma destroy_ok: "fst (destroy c w) = Inr ()"
  by (simp add: destroy_def t_unsubscribe_effect releaseTransport_effect released_def comp_defs
      split: option.splits)



section \<open>Lemmas: the registry invariant\<close>

lemma acquired_refcount:
  "registry_ok w \<Longrightarrow> refcount (acquired p n w) = (refcount w)(n := refcount w n + 1)"
  by (auto simp: registry_ok_def acquired_def refcount_def fun_eq_iff split: option.splits)

lemma registry_okD:
  assumes "registry_ok w"
  shows "(transports w n = None) = (transportRefs w n = None)"
    and "transportRefs w n = Some k \<Longrightarrow> 1 \<le> k"
    and "transports w n = Some a \<Longrightarrow> a < next_t w"
    and "transports w n = Some a \<Longrightarrow> \<not> t_destroyed (theap w a)"
    and "transports w n = Some a \<Longrightarrow> transports w m = Some a \<Longrightarrow> n = m"
    and "b < next_t w \<Longrightarrow> (\<And>n. transports w n \<noteq> Some b) \<Longrightarrow> t_destroyed (theap w b)"
  using assms unfolding registry_ok_def by blast+

lemma registry_okI:
  assumes "\<And>n. (transports w n = None) = (transportRefs w n = None)"
    and "\<And>n k. transportRefs w n = Some k \<Longrightarrow> 1 \<le> k"
    and "\<And>n a. transports w n = Some a \<Longrightarrow> a < next_t w"
    and "\<And>n a. transports w n = Some a \<Longrightarrow> \<not> t_destroyed (theap w a)"
    and "\<And>n m a. transports w n = Some a \<Longrightarrow> transports w m = Some a \<Longrightarrow> n = m"
    and "\<And>b. b < next_t w \<Longrightarrow> (\<And>n. transports w n \<noteq> Some b) \<Longrightarrow> t_destroyed (theap w b)"
  shows "registry_ok w"
  unfolding registry_ok_def using assms by blast

lemma acquired_ok:
  assumes ok: "registry_ok w"
  shows "registry_ok (acquired p n w)"
proof (cases "transports w n")
  case None
  let ?w = "w\<lparr>transports := (transports w)(n \<mapsto> next_t w),
              transportRefs := (transportRefs w)(n \<mapsto> 1),
              theap := (theap w)(next_t w := fresh_transport p n),
              next_t := Suc (next_t w)\<rparr>"
  have eq: "acquired p n w = ?w"
    using None by (simp add: acquired_def)
  have fresh: "transports w m \<noteq> Some (next_t w)" for m
    using registry_okD(3) [OF ok, of m "next_t w"] by auto
  show ?thesis
    unfolding eq
  proof (rule registry_okI)
    fix m show "(transports ?w m = None) = (transportRefs ?w m = None)"
      using registry_okD(1) [OF ok, of m] by simp
  next
    fix m k assume "transportRefs ?w m = Some k"
    then show "1 \<le> k"
      using registry_okD(2) [OF ok, of m k] by (simp split: if_splits)
  next
    fix m a assume "transports ?w m = Some a"
    then show "a < next_t ?w"
      using registry_okD(3) [OF ok, of m a] by (simp split: if_splits)
  next
    fix m a assume "transports ?w m = Some a"
    then show "\<not> t_destroyed (theap ?w a)"
      using registry_okD(4) [OF ok, of m a] fresh [of m]
      by (auto simp: fresh_transport_def split: if_splits)
  next
    fix m m' a assume "transports ?w m = Some a" "transports ?w m' = Some a"
    then show "m = m'"
      using registry_okD(5) [OF ok, of m a m'] fresh [of m] fresh [of m']
      by (auto split: if_splits)
  next
    fix b assume b: "b < next_t ?w" and un: "\<And>m. transports ?w m \<noteq> Some b"
    have "b \<noteq> next_t w" using un [of n] by simp
    then have lt: "b < next_t w" using b by simp
    have "transports w m \<noteq> Some b" for m
      using un [of m] None by (cases "m = n") simp_all
    then show "t_destroyed (theap ?w b)"
      using registry_okD(6) [OF ok lt] \<open>b \<noteq> next_t w\<close> by simp
  qed
next
  case (Some a)
  let ?w = "w\<lparr>transportRefs := (transportRefs w)(n \<mapsto> refcount w n + 1)\<rparr>"
  have eq: "acquired p n w = ?w"
    using Some by (simp add: acquired_def)
  obtain k where k: "transportRefs w n = Some k" "1 \<le> k"
    using registry_okD(1,2) [OF ok, of n] Some by (cases "transportRefs w n") auto
  show ?thesis
    unfolding eq
  proof (rule registry_okI)
    fix m show "(transports ?w m = None) = (transportRefs ?w m = None)"
      using registry_okD(1) [OF ok, of m] Some k by simp
  next
    fix m j assume "transportRefs ?w m = Some j"
    then show "1 \<le> j"
      using registry_okD(2) [OF ok, of m j] k by (auto simp: refcount_def split: if_splits)
  next
    fix m b assume "transports ?w m = Some b"
    then show "b < next_t ?w" using registry_okD(3) [OF ok, of m b] by simp
  next
    fix m b assume "transports ?w m = Some b"
    then show "\<not> t_destroyed (theap ?w b)" using registry_okD(4) [OF ok, of m b] by simp
  next
    fix m m' b assume "transports ?w m = Some b" "transports ?w m' = Some b"
    then show "m = m'" using registry_okD(5) [OF ok, of m b m'] by simp
  next
    fix b assume "b < next_t ?w" and "\<And>m. transports ?w m \<noteq> Some b"
    then show "t_destroyed (theap ?w b)" using registry_okD(6) [OF ok, of b] by simp
  qed
qed

lemma released_refcount:
  "registry_ok w \<Longrightarrow> 0 < refcount w n \<Longrightarrow> refcount (released n w) = (refcount w)(n := refcount w n - 1)"
  by (auto simp: released_def refcount_def fun_eq_iff split: option.splits)

lemma released_ok:
  assumes ok: "registry_ok w" and pos: "0 < refcount w n"
  shows "registry_ok (released n w)"
proof -
  obtain k where k: "transportRefs w n = Some k" "1 \<le> k"
    using pos registry_okD(2) [OF ok, of n] by (cases "transportRefs w n") (auto simp: refcount_def)
  obtain a where a: "transports w n = Some a"
    using registry_okD(1) [OF ok, of n] k by (cases "transports w n") auto
  show ?thesis
  proof (cases "k = 1")
    case True
    let ?w = "w\<lparr>theap := (theap w)(a := torn_down (theap w a)),
                transports := (transports w)(n := None),
                transportRefs := (transportRefs w)(n := None)\<rparr>"
    have eq: "released n w = ?w"
      using True k a by (simp add: released_def refcount_def)
    have dead: "t_destroyed (torn_down tr)" for tr
      by (simp add: torn_down_def split: strategy.splits)
    show ?thesis
      unfolding eq
    proof (rule registry_okI)
      fix m show "(transports ?w m = None) = (transportRefs ?w m = None)"
        using registry_okD(1) [OF ok, of m] by simp
    next
      fix m j assume "transportRefs ?w m = Some j"
      then show "1 \<le> j" using registry_okD(2) [OF ok, of m j] by (simp split: if_splits)
    next
      fix m b assume "transports ?w m = Some b"
      then show "b < next_t ?w" using registry_okD(3) [OF ok, of m b] by (simp split: if_splits)
    next
      fix m b assume mb: "transports ?w m = Some b"
      then have "m \<noteq> n" "transports w m = Some b" by (simp_all split: if_splits)
      then have "b \<noteq> a" using registry_okD(5) [OF ok, of m b n] a by auto
      then show "\<not> t_destroyed (theap ?w b)"
        using registry_okD(4) [OF ok \<open>transports w m = Some b\<close>] by simp
    next
      fix m m' b assume "transports ?w m = Some b" "transports ?w m' = Some b"
      then show "m = m'" using registry_okD(5) [OF ok, of m b m'] by (simp split: if_splits)
    next
      fix b assume b: "b < next_t ?w" and un: "\<And>m. transports ?w m \<noteq> Some b"
      show "t_destroyed (theap ?w b)"
      proof (cases "b = a")
        case True then show ?thesis by (simp add: dead)
      next
        case False
        have "transports w m \<noteq> Some b" for m
          using un [of m] a False by (cases "m = n") simp_all
        then show ?thesis using registry_okD(6) [OF ok, of b] b False by simp
      qed
    qed
  next
    case False
    let ?w = "w\<lparr>transportRefs := (transportRefs w)(n \<mapsto> refcount w n - 1)\<rparr>"
    have eq: "released n w = ?w"
      using False k by (simp add: released_def refcount_def)
    show ?thesis
      unfolding eq
    proof (rule registry_okI)
      fix m show "(transports ?w m = None) = (transportRefs ?w m = None)"
        using registry_okD(1) [OF ok, of m] a k by simp
    next
      fix m j assume "transportRefs ?w m = Some j"
      then show "1 \<le> j"
        using registry_okD(2) [OF ok, of m j] k False by (auto simp: refcount_def split: if_splits)
    next
      fix m b assume "transports ?w m = Some b"
      then show "b < next_t ?w" using registry_okD(3) [OF ok, of m b] by simp
    next
      fix m b assume "transports ?w m = Some b"
      then show "\<not> t_destroyed (theap ?w b)" using registry_okD(4) [OF ok, of m b] by simp
    next
      fix m m' b assume "transports ?w m = Some b" "transports ?w m' = Some b"
      then show "m = m'" using registry_okD(5) [OF ok, of m b m'] by simp
    next
      fix b assume "b < next_t ?w" and "\<And>m. transports ?w m \<noteq> Some b"
      then show "t_destroyed (theap ?w b)" using registry_okD(6) [OF ok, of b] by simp
    qed
  qed
qed

lemma run_ops_registry:
  assumes "registry_ok w" and "disciplined (refcount w) ops"
  shows "registry_ok (run_ops p ops w) \<and> refcount (run_ops p ops w) = tally (refcount w) ops"
  using assms
proof (induction ops arbitrary: w)
  case Nil
  then show ?case by simp
next
  case (Cons op ops)
  show ?case
  proof (cases op)
    case (Acquire n)
    have cnt: "refcount (acquired p n w) = (refcount w)(n := refcount w n + 1)"
      by (rule acquired_refcount [OF Cons.prems(1)])
    have ok: "registry_ok (acquired p n w)" by (rule acquired_ok [OF Cons.prems(1)])
    have "disciplined (refcount (acquired p n w)) ops"
      unfolding cnt using Cons.prems(2) Acquire by simp
    from Cons.IH [OF ok this]
    have "registry_ok (run_ops p ops (acquired p n w))
          \<and> refcount (run_ops p ops (acquired p n w)) = tally ((refcount w)(n := refcount w n + 1)) ops"
      unfolding cnt .
    then show ?thesis
      unfolding Acquire by (simp only: run_ops.simps run_op.simps getTransport_effect snd_conv tally.simps)
  next
    case (Release n)
    have pos: "0 < refcount w n" using Cons.prems(2) Release by simp
    have cnt: "refcount (released n w) = (refcount w)(n := refcount w n - 1)"
      by (rule released_refcount [OF Cons.prems(1) pos])
    have ok: "registry_ok (released n w)" by (rule released_ok [OF Cons.prems(1) pos])
    have "disciplined (refcount (released n w)) ops"
      unfolding cnt using Cons.prems(2) Release by simp
    from Cons.IH [OF ok this]
    have "registry_ok (run_ops p ops (released n w))
          \<and> refcount (run_ops p ops (released n w)) = tally ((refcount w)(n := refcount w n - 1)) ops"
      unfolding cnt .
    then show ?thesis
      unfolding Release by (simp only: run_ops.simps run_op.simps releaseTransport_effect snd_conv tally.simps)
  qed
qed



section \<open>Lemmas: isolation, suppression, construction\<close>

lemma untouched_refl: "untouched c w w"
  by (simp add: untouched_def)

lemma untouched_trans: "untouched c w w' \<Longrightarrow> untouched c w' w'' \<Longrightarrow> untouched c w w''"
  by (simp add: untouched_def)

lemma for_each_rel:
  assumes refl: "\<And>w. R w w"
    and trans: "\<And>a b c. R a b \<Longrightarrow> R b c \<Longrightarrow> R a c"
    and step: "\<And>x w. x \<in> set xs \<Longrightarrow> R w (snd (f x w))"
  shows "R w (snd (for_each f xs w))"
  using step
proof (induction xs arbitrary: w)
  case Nil
  show ?case by (simp add: ret_def refl)
next
  case (Cons x xs)
  obtain r w' where fx: "f x w = (r, w')" by (cases "f x w")
  have r1: "R w w'" using Cons.prems [of x w] fx by simp
  show ?case
  proof (cases r)
    case (Inl e)
    then show ?thesis using fx r1 by (simp add: bind_def)
  next
    case (Inr u)
    have "R w' (snd (for_each f xs w'))"
      by (simp add: Cons.IH Cons.prems)
    then show ?thesis using fx Inr trans [OF r1] by (simp add: bind_def)
  qed
qed

lemma received_untouched:
  assumes "fn \<noteq> c \<or> get_prop msg ''key'' \<noteq> JStr (ch_key (cheap w c))"
  shows "untouched c w (received p fn msg w)"
  using assms by (auto simp: untouched_def received_def accepts_def calls_of_def)

lemma delivered_untouched:
  assumes "fn \<noteq> c \<or> get_prop msg ''key'' \<noteq> JStr (ch_key (cheap w c))"
  shows "untouched c w (delivered p t msg fn w)"
proof -
  let ?w = "w\<lparr>forwarded := forwarded w @ [(t, fn, msg)]\<rparr>"
  have "untouched c ?w (received p fn msg ?w)"
    by (rule received_untouched) (use assms in simp)
  then show ?thesis by (simp add: untouched_def delivered_def calls_of_def)
qed

lemma forward_untouched:
  assumes "get_prop msg ''key'' \<noteq> JStr (ch_key (cheap w c))"
  shows "untouched c w (snd (forward p t msg w))"
proof -
  define R where "R a b = (cheap a c = cheap w c \<longrightarrow> untouched c a b)" for a b
  have "R w (snd (for_each (\<lambda>fn. try_catch (invoke_listener p t msg fn) (ret ())) xs w))" for xs
  proof (rule for_each_rel)
    show "R a a" for a by (simp add: R_def untouched_refl)
    show "R a b \<Longrightarrow> R b d \<Longrightarrow> R a d" for a b d
      by (auto simp: R_def untouched_def)
    show "R a (snd (try_catch (invoke_listener p t msg x) (ret ()) a))" for x a
      using delivered_untouched [of x c msg a p t] assms
      by (simp add: R_def try_catch_def invoke_listener_effect)
  qed
  then show ?thesis by (simp add: forward_def bind_def read_def R_def)
qed

lemma filter_forward_untouched:
  assumes "get_prop msg ''key'' \<noteq> JStr (ch_key (cheap w c))"
  shows "untouched c w (snd (filter_forward p t msg w))"
proof -
  obtain me S T where g: "getTabId p w = (Inr me, w\<lparr>sessionStorage := S, tabId := T\<rparr>)"
    using getTabId_effect [of p w] by blast
  let ?w = "w\<lparr>sessionStorage := S, tabId := T\<rparr>"
  have a: "untouched c w ?w" by (simp add: untouched_def calls_of_def)
  have "untouched c ?w (snd (forward p t msg ?w))"
    by (rule forward_untouched) (use assms in simp)
  then have "untouched c w (snd (forward p t msg ?w))"
    using a untouched_trans by blast
  then show ?thesis using a
    by (simp add: filter_forward_def bind_def g ret_def untouched_refl)
qed

lemma storage_handler_untouched:
  assumes "\<And>msg. JSON_parse p s = Inr msg \<Longrightarrow> get_prop msg ''key'' \<noteq> JStr (ch_key (cheap w c))"
  shows "untouched c w (snd (storage_handler p t ekey (Some s) w))"
proof (cases "JSON_parse p s")
  case (Inl e)
  then show ?thesis
    by (simp add: storage_handler_def comp_defs untouched_refl)
next
  case (Inr msg)
  have u: "untouched c w (snd (filter_forward p t msg w))"
    by (rule filter_forward_untouched) (rule assms [OF Inr])
  show ?thesis
  proof (cases "filter_forward p t msg w")
    case (Pair r w')
    then show ?thesis using u Inr
      by (cases r) (simp_all add: storage_handler_def comp_defs untouched_refl)
  qed
qed

lemma storage_event_untouched:
  assumes "\<And>msg. JSON_parse p s = Inr msg \<Longrightarrow> get_prop msg ''key'' \<noteq> JStr (ch_key (cheap w c))"
  shows "untouched c w (snd (storage_event p ekey (Some s) w))"
proof -
  define R where "R a b = (cheap a c = cheap w c \<longrightarrow> untouched c a b)" for a b
  have "R w (snd (for_each (\<lambda>t. try_catch (storage_handler p t ekey (Some s)) (ret ())) ts w))" for ts
  proof (rule for_each_rel)
    show "R a a" for a by (simp add: R_def untouched_refl)
    show "R a b \<Longrightarrow> R b d \<Longrightarrow> R a d" for a b d
      by (auto simp: R_def untouched_def)
    show "R a (snd (try_catch (storage_handler p t ekey (Some s)) (ret ()) a))" for t a
    proof -
      have "untouched c a (snd (storage_handler p t ekey (Some s) a))" if "cheap a c = cheap w c"
        by (rule storage_handler_untouched) (use assms that in simp)
      then show ?thesis
        by (cases "storage_handler p t ekey (Some s) a")
           (auto simp: R_def try_catch_def ret_def split: sum.splits)
    qed
  qed
  then show ?thesis by (simp add: storage_event_def bind_def read_def R_def)
qed

lemma deliver_message_untouched:
  assumes "get_prop msg ''key'' \<noteq> JStr (ch_key (cheap w c))"
  shows "untouched c w (snd (deliver_message p t msg w))"
  using filter_forward_untouched [OF assms, of p t]
  by (simp add: deliver_message_def bc_onmessage_def bind_def read_def ret_def untouched_refl)

lemma chan_listener_reject:
  assumes "get_prop msg ''key'' \<noteq> JStr (ch_key (cheap w c))"
  shows "chan_listener p c msg w = (Inr (), w)"
  using assms by (simp add: chan_listener_effect received_def accepts_def)



lemma filter_forward_own:
  assumes "get_prop msg ''tabId'' = JStr (local_identity p w)"
  shows "fst (filter_forward p t msg w) = Inr () \<and> forwarded (snd (filter_forward p t msg w)) = forwarded w"
proof -
  obtain me S T where g: "getTabId p w = (Inr me, w\<lparr>sessionStorage := S, tabId := T\<rparr>)"
    using getTabId_effect [of p w] by blast
  then have "local_identity p w = me" by (simp add: local_identity_def)
  then show ?thesis using assms g
    by (simp add: filter_forward_def bind_def ret_def)
qed

lemma storage_handler_own:
  assumes "\<And>msg. JSON_parse p s = Inr msg \<Longrightarrow> get_prop msg ''tabId'' = JStr (local_identity p w)"
  shows "forwarded (snd (storage_handler p t ekey (Some s) w)) = forwarded w"
proof (cases "JSON_parse p s")
  case (Inl e)
  then show ?thesis by (simp add: storage_handler_def comp_defs)
next
  case (Inr msg)
  show ?thesis
    using filter_forward_own [OF assms [OF Inr], of t] Inr
    by (cases "filter_forward p t msg w") (simp add: storage_handler_def comp_defs)
qed

lemma forwarded_received [simp]: "forwarded (received p c msg w) = forwarded w"
  by (simp add: received_def)

lemma forwarded_delivered: "forwarded (delivered p t msg fn w) = forwarded w @ [(t, fn, msg)]"
  by (simp add: delivered_def)

lemma t_subscribe_effect: "t_subscribe p t fn w = (Inr (), subscribed p t fn w)"
proof (cases "t_strategy (theap w t)")
  case NoopT
  then show ?thesis by (simp add: t_subscribe_def subscribed_def comp_defs)
next
  case NativeT
  then show ?thesis
    by (simp add: t_subscribe_def subscribed_def stored_message_def listening_def add_listener_def comp_defs)
next
  case FallbackT
  then show ?thesis
    by (simp add: t_subscribe_def subscribed_def stored_message_def listening_def add_listener_def
          ls_getItem_def truthy_def slot_of_def invoke_listener_effect comp_defs
          split: option.splits sum.splits)
qed

lemma restore_effect:
  "restore p c w = (Inr (), w\<lparr>cheap := (cheap w)(c := (cheap w c)\<lparr>ch_value := restored p (cheap w c) (localStorage w)\<rparr>)\<rparr>)"
  by (simp add: restore_def restored_def ls_getItem_def truthy_def comp_defs
        split: option.splits sum.splits)

lemma next_c_acquired [simp]: "next_c (acquired p n w) = next_c w"
  by (simp add: acquired_def split: option.splits)

lemma new_channel_effect:
  "new_channel p key initialValue opts w = (Inr (next_c w), constructed p key initialValue opts w)"
  by (simp add: new_channel_def constructed_def blank_channel_def getTransport_effect alloc_channel_def
        restore_effect t_subscribe_effect bind_def ret_def modify_def Let_def)



section \<open>Lemmas: the concrete runs\<close>

lemmas effect_defs = constructed_def acquired_def subscribed_def stored_message_def listening_def
  blank_channel_def restored_def physical_name_def truthy_def fresh_transport_def choose_strategy_def
  delivered_def received_def accepts_def persisted_def slot_of_def set_add_def released_def
  torn_down_def unlistened_def set_delete_def refcount_def

lemmas demo_defs = init_world_def plain_def persistent_def old_browser_def demo_browser_def
  empty_channel_def empty_transport_def demo_stringify_def demo_parse_def demo_values_def
  demo_envelope_def remote_envelope_def demo_id_def demo_now_def demo_random_def json_string_def
  digits.simps digit_char_def

lemmas code_defs = setValue_def getValue_def subscribe_def unsubscribe_def destroy_def
  persist_value_def notify_subscribers_def t_publish_def t_subscribe_def t_unsubscribe_def
  add_listener_def envelope_of_def getTabId_def read_stored_tabId_def ss_getItem_def ss_setItem_def
  ls_setItem_def ls_getItem_def fresh_tabId_def bc_postMessage_def bc_onmessage_def
  filter_forward_def forward_def invoke_listener_def chan_listener_def call_subscriber_def
  storage_handler_def deliver_message_def

lemma w_a_eq: "w_a =
   init_world\<lparr>transports := [''xts'' \<mapsto> 0], transportRefs := [''xts'' \<mapsto> 1],
     theap := (theap init_world)(0 := \<lparr>t_strategy = FallbackT, t_name = ''xts'', t_listeners = [0], t_destroyed = False\<rparr>),
     next_t := 1,
     cheap := (cheap init_world)(0 := \<lparr>ch_key = ''k'', ch_value = JStr ''a'', ch_subscribers = [],
        ch_transport = 0, ch_storageKey = ''xts-k'', ch_serialize = demo_stringify, ch_deserialize = demo_parse,
        ch_options = plain, ch_unsubscribe = True\<rparr>),
     next_c := 1\<rparr>"
  by (simp add: w_a_def run_def new_channel_effect effect_defs demo_defs)

lemma w_b_eq: "w_b =
   w_a\<lparr>localStorage := [''xts-xts'' \<mapsto> json_text (demo_envelope (JStr ''b'') ''k'')],
       sessionStorage := [''xts-tid'' \<mapsto> demo_id], tabId := Some demo_id,
       cheap := (cheap w_a)(0 := (cheap w_a 0)\<lparr>ch_value := JStr ''b''\<rparr>)\<rparr>"
  by (simp add: w_b_def w_a_eq run_def code_defs comp_defs effect_defs demo_defs)

lemma demo_identity_b: "local_identity old_browser w_b = demo_id"
  by (simp add: w_b_eq w_a_eq local_identity_def code_defs comp_defs effect_defs demo_defs)

lemma t_subscribe_replays:
  assumes "t_strategy (theap w t) = FallbackT" and "has_window p"
    and "\<not> ls_get_fails p (slot_of (theap w t))"
    and "localStorage w (slot_of (theap w t)) = Some s" and "s \<noteq> []"
    and "JSON_parse p s = Inr msg" and "is_object msg" and "get_prop msg ''value'' \<noteq> Undefined"
  shows "forwarded (snd (t_subscribe p t fn w)) = forwarded w @ [(t, fn, msg)]"
  using assms
  by (simp add: t_subscribe_effect subscribed_def stored_message_def forwarded_delivered listening_def)

lemma n_a_eq: "n_a =
   init_world\<lparr>transports := [''xts'' \<mapsto> 0], transportRefs := [''xts'' \<mapsto> 1],
     theap := (theap init_world)(0 := \<lparr>t_strategy = NativeT, t_name = ''xts'', t_listeners = [0], t_destroyed = False\<rparr>),
     next_t := 1,
     cheap := (cheap init_world)(0 := \<lparr>ch_key = ''k'', ch_value = JStr ''a'', ch_subscribers = [],
        ch_transport = 0, ch_storageKey = ''xts-k'', ch_serialize = demo_stringify, ch_deserialize = demo_parse,
        ch_options = plain, ch_unsubscribe = True\<rparr>),
     next_c := 1\<rparr>"
  by (simp add: n_a_def run_def new_channel_effect effect_defs demo_defs)

lemma n_s_eq: "n_s =
   n_a\<lparr>cheap := (cheap n_a)(0 := (cheap n_a 0)\<lparr>ch_subscribers := [11, 13, 12]\<rparr>),
       calls := [(0, 11, JStr ''a''), (0, 13, JStr ''a''), (0, 12, JStr ''a'')]\<rparr>"
  by (simp add: n_s_def n_a_eq run_def code_defs comp_defs effect_defs demo_defs)

lemma published_elsewhere:
  "published p tr env store k \<noteq> store k \<Longrightarrow> t_strategy tr = FallbackT \<and> k = slot_of tr"
  by (auto simp: published_def split: if_splits sum.splits)

lemma persisted_off: "\<not> persist (ch_options ch) \<Longrightarrow> persisted p ch v store = store"
  by (simp add: persisted_def)


lemma no_throw_eq: "(\<And>w. fst (m w) = Inr (f w)) \<Longrightarrow> no_throw m"
  unfolding no_throw_def
proof (intro allI)
  fix w assume a: "\<And>w. fst (m w) = Inr (f w)"
  have "m w = (Inr (f w), snd (m w))" using a [of w] by (cases "m w") simp
  then show "\<exists>x w'. m w = (Inr x, w')" by blast
qed

lemma no_throw_t_publish: "no_throw (t_publish p t msg)"
  unfolding t_publish_def
  by (intro no_throw_bind no_throw_read) (auto split: strategy.split)

lemma no_throw_setValue: "no_throw (setValue p c v)"
  unfolding setValue_def
  by (intro no_throw_if no_throw_bind no_throw_modify no_throw_read no_throw_ret
        no_throw_persist_value no_throw_getTabId no_throw_t_publish no_throw_notify)

lemma no_throw_subscribe: "no_throw (subscribe p c fn)"
  unfolding subscribe_def by auto

lemma no_throw_destroy: "no_throw (destroy c)"
  by (rule no_throw_eq [where f = "\<lambda>w. ()"]) (rule destroy_ok)

lemma no_throw_new_channel: "no_throw (new_channel p key initialValue opts)"
  by (rule no_throw_eq [where f = next_c]) (simp add: new_channel_effect)

lemma no_throw_events:
  "no_throw (deliver_message p t data)" "no_throw (storage_event p ekey newValue)"
proof -
  have f: "no_throw (filter_forward p t' m)" for t' m
    unfolding filter_forward_def forward_def
    by (intro no_throw_if no_throw_bind no_throw_getTabId no_throw_read no_throw_for_each
          no_throw_try_catch no_throw_ret)
  show "no_throw (deliver_message p t data)"
    unfolding deliver_message_def bc_onmessage_def
    by (intro no_throw_bind no_throw_read no_throw_if f no_throw_ret)
  show "no_throw (storage_event p ekey newValue)"
    unfolding storage_event_def
    by (intro no_throw_bind no_throw_read no_throw_for_each no_throw_try_catch no_throw_ret)
qed

lemma h_s_eq: "h_s =
   init_world\<lparr>transports := [''xts'' \<mapsto> 0], transportRefs := [''xts'' \<mapsto> 1],
     theap := (theap init_world)(0 := \<lparr>t_strategy = FallbackT, t_name = ''xts'', t_listeners = [0], t_destroyed = False\<rparr>),
     next_t := 1,
     cheap := (cheap init_world)(0 := \<lparr>ch_key = ''k'', ch_value = JStr ''a'', ch_subscribers = [11, 12],
        ch_transport = 0, ch_storageKey = ''xts-k'', ch_serialize = JSON_stringify hostile,
        ch_deserialize = JSON_parse hostile,
        ch_options = persistent, ch_unsubscribe = True\<rparr>),
     next_c := 1,
     calls := [(0, 11, JStr ''a''), (0, 12, JStr ''a'')]\<rparr>"
  by (simp add: h_s_def run_def new_channel_effect code_defs comp_defs effect_defs demo_defs hostile_def)

lemma n_two_eq: "n_two =
   init_world\<lparr>transports := [''xts'' \<mapsto> 0], transportRefs := [''xts'' \<mapsto> 2],
     theap := (theap init_world)(0 := \<lparr>t_strategy = NativeT, t_name = ''xts'', t_listeners = [0, 1], t_destroyed = False\<rparr>),
     next_t := 1,
     cheap := (cheap init_world)
       (0 := \<lparr>ch_key = ''a'', ch_value = JStr ''a0'', ch_subscribers = [21],
        ch_transport = 0, ch_storageKey = ''xts-a'', ch_serialize = demo_stringify, ch_deserialize = demo_parse,
        ch_options = plain, ch_unsubscribe = True\<rparr>,
        1 := \<lparr>ch_key = ''b'', ch_value = JStr ''b0'', ch_subscribers = [22],
        ch_transport = 0, ch_storageKey = ''xts-b'', ch_serialize = demo_stringify, ch_deserialize = demo_parse,
        ch_options = plain, ch_unsubscribe = True\<rparr>),
     next_c := 2,
     calls := [(0, 21, JStr ''a0''), (1, 22, JStr ''b0'')]\<rparr>"
  by (simp add: n_two_def run_def new_channel_effect code_defs comp_defs effect_defs demo_defs)

lemma o_two_eq: "o_two =
   init_world\<lparr>transports := [''xts'' \<mapsto> 0], transportRefs := [''xts'' \<mapsto> 2],
     theap := (theap init_world)(0 := \<lparr>t_strategy = FallbackT, t_name = ''xts'', t_listeners = [0, 1], t_destroyed = False\<rparr>),
     next_t := 1,
     cheap := (cheap init_world)
       (0 := \<lparr>ch_key = ''a'', ch_value = JStr ''a0'', ch_subscribers = [21],
        ch_transport = 0, ch_storageKey = ''xts-a'', ch_serialize = demo_stringify, ch_deserialize = demo_parse,
        ch_options = plain, ch_unsubscribe = True\<rparr>,
        1 := \<lparr>ch_key = ''b'', ch_value = JStr ''b0'', ch_subscribers = [22],
        ch_transport = 0, ch_storageKey = ''xts-b'', ch_serialize = demo_stringify, ch_deserialize = demo_parse,
        ch_options = plain, ch_unsubscribe = True\<rparr>),
     next_c := 2,
     calls := [(0, 21, JStr ''a0''), (1, 22, JStr ''b0'')]\<rparr>"
  by (simp add: o_two_def run_def new_channel_effect code_defs comp_defs effect_defs demo_defs)

lemma remote_parse: "JSON_parse old_browser (json_text remote_envelope) = Inr remote_envelope"
  by (simp add: demo_defs)

lemma n_two_delivery:
  "ch_value (cheap (snd (deliver_message demo_browser 0 remote_envelope n_two)) 1) = JStr ''remote''
   \<and> calls (snd (deliver_message demo_browser 0 remote_envelope n_two))
       = calls n_two @ [(1, 22, JStr ''remote'')]"
  by (simp add: n_two_eq code_defs comp_defs effect_defs demo_defs)

lemma o_two_delivery:
  "ch_value (cheap (snd (storage_event old_browser (Some ''xts-xts'')
       (Some (json_text remote_envelope)) o_two)) 1) = JStr ''remote''"
  unfolding storage_event_def storage_handler_def
  by (simp add: remote_parse) (simp add: o_two_eq code_defs comp_defs effect_defs demo_defs)

lemma registry_ok_init: "registry_ok init_world"
  by (simp add: registry_ok_def init_world_def)

lemma restored_transport: "restored p (blank_channel p key v opts t) store = restored p (blank_channel p key v opts 0) store"
  by (simp add: restored_def blank_channel_def split: option.splits sum.splits)

lemma acquired_fields [simp]:
  "localStorage (acquired p n w) = localStorage w" "cheap (acquired p n w) = cheap w"
  by (simp_all add: acquired_def split: option.splits)

lemma acquired_joins:
  "theap (acquired p n w) (case transports w n of None \<Rightarrow> next_t w | Some a \<Rightarrow> a) = joins p w n"
  by (simp add: acquired_def joins_def split: option.splits)

lemma stored_message_shape:
  "stored_message p tr store = Some msg \<Longrightarrow> is_object msg \<and> get_prop msg ''value'' \<noteq> Undefined \<and> t_strategy tr = FallbackT"
  by (auto simp: stored_message_def split: if_splits option.splits sum.splits)

lemma subscribed_value:
  assumes "theap w t = tr"
  shows "ch_value (cheap (subscribed p t c w) c) =
     (case stored_message p tr (localStorage w) of
        None \<Rightarrow> ch_value (cheap w c)
      | Some msg \<Rightarrow> if get_prop msg ''key'' = JStr (ch_key (cheap w c)) then get_prop msg ''value''
                    else ch_value (cheap w c))"
proof (cases "stored_message p tr (localStorage w)")
  case None
  then show ?thesis using assms by (simp add: subscribed_def listening_def)
next
  case (Some msg)
  have sh: "is_object msg" "get_prop msg ''value'' \<noteq> Undefined" "t_strategy tr = FallbackT"
    using stored_message_shape [OF Some] by simp_all
  show ?thesis using assms Some sh
    by (simp add: subscribed_def listening_def delivered_def received_def accepts_def)
qed

lemma new_channel_value:
  "ch_value (cheap (snd (new_channel p key initialValue opts w)) (next_c w))
     = first_value p w key initialValue opts"
proof -
  let ?n = "physical_name opts"
  let ?t = "case transports w ?n of None \<Rightarrow> next_t w | Some a \<Rightarrow> a"
  let ?ch = "blank_channel p key initialValue opts ?t"
  let ?w1 = "acquired p ?n w"
  let ?w2 = "?w1\<lparr>next_c := Suc (next_c w),
                   cheap := (cheap ?w1)(next_c w := ?ch\<lparr>ch_value := restored p ?ch (localStorage ?w1)\<rparr>)\<rparr>"
  have th: "theap ?w2 ?t = joins p w ?n" by (simp add: acquired_joins)
  have key: "ch_key (cheap ?w2 (next_c w)) = key" by (simp add: blank_channel_def)
  have v0: "ch_value (cheap ?w2 (next_c w)) = restored p (blank_channel p key initialValue opts 0) (localStorage w)"
    by (simp add: restored_transport [of p key initialValue opts ?t])
  have ls: "localStorage ?w2 = localStorage w" by simp
  have "ch_value (cheap (subscribed p ?t (next_c w) ?w2) (next_c w)) = first_value p w key initialValue opts"
    unfolding subscribed_value [OF th] first_value_def replay_for_def key v0 ls Let_def ..
  then show ?thesis
    by (simp add: new_channel_effect constructed_def Let_def)
qed

lemma p_0_eq: "p_0 =
   init_world\<lparr>transports := [''other'' \<mapsto> 0], transportRefs := [''other'' \<mapsto> 1],
     theap := (theap init_world)(0 := \<lparr>t_strategy = FallbackT, t_name = ''other'', t_listeners = [0], t_destroyed = False\<rparr>),
     next_t := 1,
     cheap := (cheap init_world)(0 := \<lparr>ch_key = ''k'', ch_value = JStr ''i0'', ch_subscribers = [],
        ch_transport = 0, ch_storageKey = ''xts-k'', ch_serialize = demo_stringify, ch_deserialize = demo_parse,
        ch_options = elsewhere, ch_unsubscribe = True\<rparr>),
     next_c := 1\<rparr>"
  by (simp add: p_0_def run_def new_channel_effect effect_defs demo_defs elsewhere_def)

lemma p_1_eq: "p_1 =
   p_0\<lparr>localStorage := [''xts-other'' \<mapsto> json_text (demo_envelope (JStr ''y'') ''k'')],
       sessionStorage := [''xts-tid'' \<mapsto> demo_id], tabId := Some demo_id,
       cheap := (cheap p_0)(0 := (cheap p_0 0)\<lparr>ch_value := JStr ''y''\<rparr>)\<rparr>"
  by (simp add: p_1_def p_0_eq run_def code_defs comp_defs effect_defs demo_defs elsewhere_def)

lemma p_2_eq: "p_2 =
   p_1\<lparr>transports := (transports p_1)(''xts'' \<mapsto> 1), transportRefs := (transportRefs p_1)(''xts'' \<mapsto> 1),
     theap := (theap p_1)(1 := \<lparr>t_strategy = FallbackT, t_name = ''xts'', t_listeners = [1], t_destroyed = False\<rparr>),
     next_t := 2,
     cheap := (cheap p_1)(1 := \<lparr>ch_key = ''k'', ch_value = JStr ''i1'', ch_subscribers = [],
        ch_transport = 1, ch_storageKey = ''xts-k'', ch_serialize = demo_stringify, ch_deserialize = demo_parse,
        ch_options = persistent, ch_unsubscribe = True\<rparr>),
     next_c := 2\<rparr>"
  by (simp add: p_2_def p_1_eq p_0_eq run_def new_channel_effect effect_defs demo_defs elsewhere_def)

lemma p_3_eq: "p_3 =
   p_2\<lparr>localStorage := [''xts-other'' \<mapsto> json_text (demo_envelope (JStr ''y'') ''k''),
                         ''xts-k'' \<mapsto> json_text (JStr ''x''),
                         ''xts-xts'' \<mapsto> json_text (demo_envelope (JStr ''x'') ''k'')],
       cheap := (cheap p_2)(1 := (cheap p_2 1)\<lparr>ch_value := JStr ''x''\<rparr>)\<rparr>"
  by (simp add: p_3_def p_2_eq p_1_eq p_0_eq run_def code_defs comp_defs effect_defs demo_defs elsewhere_def)

lemma p_3_facts:
  "localStorage p_3 ''xts-k'' = Some (json_text (JStr ''x''))"
  "localStorage p_3 ''xts-other'' = Some (json_text (demo_envelope (JStr ''y'') ''k''))"
  "transports p_3 ''other'' = Some 0"
  "theap p_3 0 = \<lparr>t_strategy = FallbackT, t_name = ''other'', t_listeners = [0], t_destroyed = False\<rparr>"
  "next_c p_3 = 2"
  "ch_key (cheap p_3 1) = ''k''" "persist (ch_options (cheap p_3 1))" "ch_value (cheap p_3 1) = JStr ''x''"
  by (simp_all add: p_3_eq p_2_eq p_1_eq p_0_eq init_world_def persistent_def)

lemma x_text: "json_text (JStr ''x'') = [CHR 0x22, CHR ''x'', CHR 0x22]"
  by (simp add: json_string_def)

lemma x_parse: "demo_parse (json_text (JStr ''x'')) = Inr (JStr ''x'')"
  by (simp add: demo_defs)

lemma y_parse: "demo_parse (json_text (demo_envelope (JStr ''y'') ''k'')) = Inr (demo_envelope (JStr ''y'') ''k'')"
  by (simp add: demo_defs)

lemma x_trim: "trim (json_text (JStr ''x'')) \<noteq> []"
  unfolding x_text by (simp add: trim_def is_space_def)

lemma q_0_eq: "q_0 =
   init_world\<lparr>transports := [''xts'' \<mapsto> 0], transportRefs := [''xts'' \<mapsto> 1],
     theap := (theap init_world)(0 := \<lparr>t_strategy = FallbackT, t_name = ''xts'', t_listeners = [0], t_destroyed = False\<rparr>),
     next_t := 1,
     cheap := (cheap init_world)(0 := \<lparr>ch_key = ''k'', ch_value = JStr ''a'', ch_subscribers = [],
        ch_transport = 0, ch_storageKey = ''xts-k'', ch_serialize = demo_stringify, ch_deserialize = demo_parse,
        ch_options = persistent, ch_unsubscribe = True\<rparr>),
     next_c := 1\<rparr>"
  by (simp add: q_0_def run_def new_channel_effect effect_defs demo_defs)

lemma q_1_eq: "q_1 =
   q_0\<lparr>localStorage := [''xts-k'' \<mapsto> json_text (JStr ''x''),
                         ''xts-xts'' \<mapsto> json_text (demo_envelope (JStr ''x'') ''k'')],
       sessionStorage := [''xts-tid'' \<mapsto> demo_id], tabId := Some demo_id,
       cheap := (cheap q_0)(0 := (cheap q_0 0)\<lparr>ch_value := JStr ''x''\<rparr>)\<rparr>"
  by (simp add: q_1_def q_0_eq run_def code_defs comp_defs effect_defs demo_defs)

lemma envelope_x_parse:
  "demo_parse (json_text (demo_envelope (JStr ''x'') ''k'')) = Inr (demo_envelope (JStr ''x'') ''k'')"
  by (simp add: demo_defs)

lemma q_1_replay: "replay_for old_browser q_1 ''xts'' = Some (demo_envelope (JStr ''x'') ''k'')"
  by (simp add: replay_for_def stored_message_def joins_def q_1_eq q_0_eq init_world_def slot_of_def
        old_browser_def demo_browser_def envelope_x_parse)
     (simp add: demo_envelope_def)

lemma r_0_eq: "r_0 =
   init_world\<lparr>transports := [''xts'' \<mapsto> 0], transportRefs := [''xts'' \<mapsto> 1],
     theap := (theap init_world)(0 := \<lparr>t_strategy = FallbackT, t_name = ''xts'', t_listeners = [0], t_destroyed = False\<rparr>),
     next_t := 1,
     cheap := (cheap init_world)(0 := \<lparr>ch_key = ''xts'', ch_value = JStr ''a'', ch_subscribers = [],
        ch_transport = 0, ch_storageKey = ''xts-xts'', ch_serialize = (\<lambda>v. Inr []), ch_deserialize = demo_parse,
        ch_options = mute, ch_unsubscribe = True\<rparr>),
     next_c := 1\<rparr>"
  by (simp add: r_0_def run_def new_channel_effect effect_defs demo_defs mute_def)

lemma r_1_eq: "r_1 =
   r_0\<lparr>localStorage := [''xts-xts'' \<mapsto> json_text (demo_envelope (JStr ''v'') ''xts'')],
       sessionStorage := [''xts-tid'' \<mapsto> demo_id], tabId := Some demo_id,
       cheap := (cheap r_0)(0 := (cheap r_0 0)\<lparr>ch_value := JStr ''v''\<rparr>)\<rparr>"
  by (simp add: r_1_def r_0_eq run_def code_defs comp_defs effect_defs demo_defs mute_def)

lemma empty_serialization_guard:
  assumes "ch_serialize (cheap w c) v = Inr []"
  shows "persisted p (cheap w c) v store = store"
    and "accepts (cheap w c) msg \<Longrightarrow> get_prop msg ''value'' = v \<Longrightarrow>
           ch_value (cheap (snd (chan_listener p c msg w)) c) = v
           \<and> localStorage (snd (chan_listener p c msg w)) = localStorage w"
    and "v \<noteq> Undefined \<Longrightarrow>
           ch_value (cheap (snd (setValue p c v w)) c) = v
           \<and> (\<forall>k. localStorage (snd (setValue p c v w)) k \<noteq> localStorage w k \<longrightarrow>
                 t_strategy (theap w (ch_transport (cheap w c))) = FallbackT
                 \<and> k = slot_of (theap w (ch_transport (cheap w c))))"
proof -
  show a: "persisted p (cheap w c) v store = store" for store
    using assms by (simp add: persisted_def)
  show "ch_value (cheap (snd (chan_listener p c msg w)) c) = v
           \<and> localStorage (snd (chan_listener p c msg w)) = localStorage w"
    if "accepts (cheap w c) msg" "get_prop msg ''value'' = v"
    using that a by (simp add: chan_listener_effect received_def)
  show "ch_value (cheap (snd (setValue p c v w)) c) = v
           \<and> (\<forall>k. localStorage (snd (setValue p c v w)) k \<noteq> localStorage w k \<longrightarrow>
                 t_strategy (theap w (ch_transport (cheap w c))) = FallbackT
                 \<and> k = slot_of (theap w (ch_transport (cheap w c))))"
    if "v \<noteq> Undefined"
  proof -
    from setValue_effect [OF that, of p c w] obtain me S T where
      "setValue p c v w =
       (Inr (), w\<lparr>localStorage := published p (theap w (ch_transport (cheap w c)))
                      (envelope p v (ch_key (cheap w c)) me)
                      (persisted p (cheap w c) v (localStorage w)),
                   sessionStorage := S, tabId := T,
                   cheap := (cheap w)(c := (cheap w c)\<lparr>ch_value := v\<rparr>),
                   calls := calls w @ map (\<lambda>fn. (c, fn, v)) (ch_subscribers (cheap w c))\<rparr>)"
      by blast
    then show ?thesis
      using published_elsewhere [of p "theap w (ch_transport (cheap w c))" _ "localStorage w"]
      by (simp add: a)
  qed
qed

lemma distinct_set_add: "distinct xs \<Longrightarrow> distinct (set_add x xs)"
  by (simp add: set_add_def)

lemma distinct_set_delete: "distinct xs \<Longrightarrow> distinct (set_delete x xs)"
  by (simp add: set_delete_def distinct_removeAll)

lemma subscribers_received [simp]:
  "ch_subscribers (cheap (received p c msg w) c') = ch_subscribers (cheap w c')"
  by (simp add: received_def)

lemma subscribers_subscribed [simp]:
  "ch_subscribers (cheap (subscribed p t fn w) c') = ch_subscribers (cheap w c')"
  by (simp add: subscribed_def listening_def delivered_def split: option.splits)

lemma sets_ok_init: "sets_ok init_world"
  by (simp add: sets_ok_def init_world_def empty_channel_def)

lemma sets_ok_preserved:
  assumes "sets_ok w"
  shows "sets_ok (run (subscribe p c fn) w)"
    and "sets_ok (run (unsubscribe c fn) w)"
    and "sets_ok (run (setValue p c v) w)"
    and "sets_ok (run (destroy c) w)"
    and "sets_ok (run (new_channel p key initialValue opts) w)"
    and "sets_ok (run (chan_listener p c msg) w)"
proof -
  have d: "distinct (ch_subscribers (cheap w c'))" for c'
    using assms by (simp add: sets_ok_def)
  show "sets_ok (run (subscribe p c fn) w)"
    using d by (simp add: sets_ok_def run_def subscribe_def bind_def modify_def read_def notify_one
        distinct_set_add)
  show "sets_ok (run (unsubscribe c fn) w)"
    using d by (simp add: sets_ok_def run_def unsubscribe_def modify_def distinct_set_delete)
  show "sets_ok (run (setValue p c v) w)"
  proof (cases "v = Undefined")
    case True
    then show ?thesis using assms by (simp add: run_def setValue_def ret_def)
  next
    case False
    from setValue_effect [OF False, of p c w] obtain L S T where
      "setValue p c v w = (Inr (), w\<lparr>localStorage := L, sessionStorage := S, tabId := T,
                 cheap := (cheap w)(c := (cheap w c)\<lparr>ch_value := v\<rparr>),
                 calls := calls w @ map (\<lambda>fn. (c, fn, v)) (ch_subscribers (cheap w c))\<rparr>)"
      by blast
    then show ?thesis using d by (simp add: sets_ok_def run_def)
  qed
  show "sets_ok (run (destroy c) w)"
    using d
    by (simp add: sets_ok_def run_def destroy_def t_unsubscribe_effect releaseTransport_effect
        released_def comp_defs split: option.splits)
  show "sets_ok (run (new_channel p key initialValue opts) w)"
    using d
    by (simp add: sets_ok_def run_def new_channel_effect constructed_def Let_def blank_channel_def)
  show "sets_ok (run (chan_listener p c msg) w)"
    using d by (simp add: sets_ok_def run_def chan_listener_effect)
qed

lemma s_0_eq: "s_0 =
   init_world\<lparr>transports := [''xts'' \<mapsto> 0], transportRefs := [''xts'' \<mapsto> 1],
     theap := (theap init_world)(0 := \<lparr>t_strategy = FallbackT, t_name = ''xts'', t_listeners = [0], t_destroyed = False\<rparr>),
     next_t := 1,
     cheap := (cheap init_world)(0 := \<lparr>ch_key = ''xts'', ch_value = JStr ''a'', ch_subscribers = [],
        ch_transport = 0, ch_storageKey = ''xts-xts'', ch_serialize = demo_stringify, ch_deserialize = demo_parse,
        ch_options = persistent, ch_unsubscribe = True\<rparr>),
     next_c := 1\<rparr>"
  by (simp add: s_0_def run_def new_channel_effect effect_defs demo_defs)

lemma persistence_slot_collision:
  "ch_storageKey (cheap s_0 0) = ''xts-xts'' \<and> slot_of (theap s_0 (ch_transport (cheap s_0 0))) = ''xts-xts''
   \<and> localStorage s_1 ''xts-xts'' = Some (json_text (demo_envelope (JStr ''x'') ''xts''))
   \<and> json_text (demo_envelope (JStr ''x'') ''xts'') \<noteq> json_text (JStr ''x'')"
  by (simp add: s_1_def s_0_eq run_def code_defs comp_defs effect_defs demo_defs)










section \<open>The claims\<close>

subsection \<open>C1: self-suppression\<close>

text \<open>
  C1, as stated, says that a message whose \<open>tabId\<close> is the local identity is never
  forwarded to the transport's listeners, on any path, the fallback's read of the stored
  slot at subscribe time included. In the old browser the first channel publishes
  \<^verbatim>\<open>'b'\<close>; the envelope, with this tab's identity, is in the transport's slot. The
  constructor of the second channel subscribes, and the transport calls the new listener
  with that envelope: the second channel starts from \<^verbatim>\<open>'b'\<close>, not from its
  \<^verbatim>\<open>initialValue\<close>.
\<close>

theorem own_message_replayed_at_subscribe:
  "get_prop (demo_envelope (JStr ''b'') ''k'') ''tabId'' = JStr (local_identity old_browser w_b)
   \<and> forwarded w_b = []
   \<and> forwarded w_c = [(0, 1, demo_envelope (JStr ''b'') ''k'')]
   \<and> ch_value (cheap w_c 1) = JStr ''b''"
  by (simp add: w_c_def w_b_eq w_a_eq run_def new_channel_effect local_identity_def
        code_defs comp_defs effect_defs demo_defs)

text \<open>
  C1, amended: on the two live paths, the handler of the native transport and the storage
  handler of the fallback transport, a message whose \<open>tabId\<close> is the local identity is
  never forwarded to a listener; the fallback's read of its slot at subscribe time makes
  no such test, and hands a stored object with a defined \<open>value\<close> to the new listener
  whatever its \<open>tabId\<close>.
\<close>

theorem self_suppression_on_live_paths:
  assumes "get_prop msg ''tabId'' = JStr (local_identity p w)"
  shows "forwarded (snd (bc_onmessage p t msg w)) = forwarded w
       \<and> (JSON_parse p s = Inr msg \<longrightarrow>
            forwarded (snd (storage_handler p t ekey (Some s) w)) = forwarded w)
       \<and> (t_strategy (theap w t) = FallbackT \<and> has_window p
            \<and> \<not> ls_get_fails p (slot_of (theap w t))
            \<and> localStorage w (slot_of (theap w t)) = Some s \<and> s \<noteq> []
            \<and> JSON_parse p s = Inr msg \<and> is_object msg \<and> get_prop msg ''value'' \<noteq> Undefined \<longrightarrow>
            forwarded (snd (t_subscribe p t fn w)) = forwarded w @ [(t, fn, msg)])"
proof (intro conjI impI)
  show "forwarded (snd (bc_onmessage p t msg w)) = forwarded w"
    using filter_forward_own [OF assms] by (simp add: bc_onmessage_def)
next
  assume "JSON_parse p s = Inr msg"
  then show "forwarded (snd (storage_handler p t ekey (Some s) w)) = forwarded w"
    using assms by (intro storage_handler_own) simp
next
  assume "t_strategy (theap w t) = FallbackT \<and> has_window p
            \<and> \<not> ls_get_fails p (slot_of (theap w t))
            \<and> localStorage w (slot_of (theap w t)) = Some s \<and> s \<noteq> []
            \<and> JSON_parse p s = Inr msg \<and> is_object msg \<and> get_prop msg ''value'' \<noteq> Undefined"
  then show "forwarded (snd (t_subscribe p t fn w)) = forwarded w @ [(t, fn, msg)]"
    using t_subscribe_replays [of w t p s msg fn] by blast
qed

theorem self_suppression_on_live_paths_witness:
  "get_prop (demo_envelope (JStr ''b'') ''k'') ''tabId'' = JStr (local_identity old_browser w_b)
   \<and> forwarded (snd (bc_onmessage old_browser 0 (demo_envelope (JStr ''b'') ''k'') w_b)) = forwarded w_b
   \<and> forwarded (snd (storage_handler old_browser 0 (Some ''xts-xts'')
         (Some (json_text (demo_envelope (JStr ''b'') ''k''))) w_b)) = forwarded w_b
   \<and> forwarded (snd (t_subscribe old_browser 0 1 w_b))
       = forwarded w_b @ [(0, 1, demo_envelope (JStr ''b'') ''k'')]"
proof -
  let ?m = "demo_envelope (JStr ''b'') ''k''"
  have own: "get_prop ?m ''tabId'' = JStr (local_identity old_browser w_b)"
    by (simp add: demo_identity_b) (simp add: demo_envelope_def)
  have parse: "JSON_parse old_browser (json_text ?m) = Inr ?m"
    by (simp add: demo_defs)
  have pre: "t_strategy (theap w_b 0) = FallbackT \<and> has_window old_browser
            \<and> \<not> ls_get_fails old_browser (slot_of (theap w_b 0))
            \<and> localStorage w_b (slot_of (theap w_b 0)) = Some (json_text ?m) \<and> json_text ?m \<noteq> []
            \<and> JSON_parse old_browser (json_text ?m) = Inr ?m \<and> is_object ?m
            \<and> get_prop ?m ''value'' \<noteq> Undefined"
    unfolding parse by (simp add: w_b_eq w_a_eq slot_of_def demo_defs)
  show ?thesis
    using self_suppression_on_live_paths [OF own, where s = "json_text ?m" and t = 0
        and ekey = "Some ''xts-xts''" and fn = 1] own parse pre
    by blast
qed

subsection \<open>C2: storage written without persistence\<close>

text \<open>
  C2, as stated, says that with \<open>persist\<close> false no call of \<^verbatim>\<open>setValue\<close> writes any
  \<^verbatim>\<open>localStorage\<close> slot, whatever the transport. In the old browser the channel of
  \<open>w_a\<close> has \<open>persist\<close> false, the slot \<^verbatim>\<open>xts-xts\<close> is empty, and \<^verbatim>\<open>setValue('b')\<close>
  leaves the JSON text of the envelope in it: the fallback transport publishes through
  that slot.
\<close>

theorem setValue_writes_fallback_slot:
  "\<not> persist (ch_options (cheap w_a 0))
   \<and> localStorage w_a ''xts-xts'' = None
   \<and> localStorage (run (setValue old_browser 0 (JStr ''b'')) w_a) ''xts-xts''
       = Some (json_text (demo_envelope (JStr ''b'') ''k''))"
  using w_b_eq by (simp add: w_b_def w_a_eq demo_defs)

text \<open>
  C2, amended: with \<open>persist\<close> false a call of \<^verbatim>\<open>setValue\<close> changes no slot of
  \<^verbatim>\<open>localStorage\<close> other than the slot of the channel's own transport, and that one only
  when the transport is the storage fallback. With the native or the no-op transport
  \<^verbatim>\<open>localStorage\<close> is left as it was.
\<close>

theorem setValue_without_persist_storage:
  assumes "\<not> persist (ch_options (cheap w c))"
  shows "\<forall>k. localStorage (snd (setValue p c v w)) k \<noteq> localStorage w k \<longrightarrow>
              t_strategy (theap w (ch_transport (cheap w c))) = FallbackT
              \<and> k = slot_of (theap w (ch_transport (cheap w c)))"
proof (cases "v = Undefined")
  case True
  then show ?thesis by (simp add: setValue_def ret_def)
next
  case False
  from setValue_effect [OF False, of p c w] obtain me S T where
    "setValue p c v w =
     (Inr (), w\<lparr>localStorage := published p (theap w (ch_transport (cheap w c)))
                    (envelope p v (ch_key (cheap w c)) me)
                    (persisted p (cheap w c) v (localStorage w)),
                 sessionStorage := S, tabId := T,
                 cheap := (cheap w)(c := (cheap w c)\<lparr>ch_value := v\<rparr>),
                 calls := calls w @ map (\<lambda>fn. (c, fn, v)) (ch_subscribers (cheap w c))\<rparr>)"
    by blast
  then show ?thesis
    using published_elsewhere [of p "theap w (ch_transport (cheap w c))" _ "localStorage w"]
    by (simp add: persisted_off [OF assms])
qed

theorem setValue_without_persist_storage_witness:
  "\<not> persist (ch_options (cheap n_s 0))
   \<and> localStorage (snd (setValue demo_browser 0 (JStr ''b'') n_s)) = localStorage n_s
   \<and> localStorage (snd (setValue old_browser 0 (JStr ''b'') w_a)) ''xts-k'' = localStorage w_a ''xts-k''"
proof -
  have a: "\<not> persist (ch_options (cheap n_s 0))"
    by (simp add: n_s_eq n_a_eq demo_defs)
  have b: "t_strategy (theap n_s (ch_transport (cheap n_s 0))) \<noteq> FallbackT"
    by (simp add: n_s_eq n_a_eq demo_defs)
  have c: "\<not> persist (ch_options (cheap w_a 0))"
    by (simp add: w_a_eq demo_defs)
  have d: "''xts-k'' \<noteq> slot_of (theap w_a (ch_transport (cheap w_a 0)))"
    by (simp add: w_a_eq slot_of_def demo_defs)
  have "localStorage (snd (setValue demo_browser 0 (JStr ''b'') n_s)) k = localStorage n_s k" for k
    using setValue_without_persist_storage [OF a, of demo_browser "JStr ''b''"] b by blast
  then have "localStorage (snd (setValue demo_browser 0 (JStr ''b'') n_s)) = localStorage n_s"
    by (rule ext)
  moreover have "localStorage (snd (setValue old_browser 0 (JStr ''b'') w_a)) ''xts-k'' = localStorage w_a ''xts-k''"
    using setValue_without_persist_storage [OF c, of old_browser "JStr ''b''"] d by blast
  ultimately show ?thesis using a by blast
qed

subsection \<open>C3: read your write, notify once\<close>




subsection \<open>C4: reference counting in the registry\<close>

text \<open>
  C4: start from a registry in order and run any history of acquires and releases that
  keeps the discipline (a name is released only while held, so each release answers one
  acquire). Then the count of every name is its initial count plus its acquires minus its
  releases; a name is registered exactly while its count is positive, so it is evicted by
  the release that would bring the count to zero; a registered transport has not been
  destroyed and is the instance the next acquire returns; and every allocated transport
  that is no longer registered has been destroyed.
\<close>

theorem registry_reference_counting:
  assumes "registry_ok w0" and "disciplined (refcount w0) ops"
  shows "(\<forall>n. refcount (run_ops p ops w0) n = tally (refcount w0) ops n)
       \<and> (\<forall>n. (transports (run_ops p ops w0) n \<noteq> None) = (0 < refcount (run_ops p ops w0) n))
       \<and> (\<forall>n a. transports (run_ops p ops w0) n = Some a \<longrightarrow>
              \<not> t_destroyed (theap (run_ops p ops w0) a)
              \<and> fst (getTransport p n (run_ops p ops w0)) = Inr a)
       \<and> (\<forall>a<next_t (run_ops p ops w0). (\<forall>n. transports (run_ops p ops w0) n \<noteq> Some a) \<longrightarrow>
              t_destroyed (theap (run_ops p ops w0) a))"
proof -
  let ?w = "run_ops p ops w0"
  have ok: "registry_ok ?w" and cnt: "refcount ?w = tally (refcount w0) ops"
    using run_ops_registry [OF assms, of p] by simp_all
  have reg: "(transports ?w n \<noteq> None) = (0 < refcount ?w n)" for n
    using registry_okD(1,2) [OF ok, of n] 
    by (cases "transportRefs ?w n") (auto simp: refcount_def)
  have live: "\<not> t_destroyed (theap ?w a) \<and> fst (getTransport p n ?w) = Inr a"
    if "transports ?w n = Some a" for n a
    using registry_okD(4) [OF ok that] that by (simp add: getTransport_effect)
  have dead: "t_destroyed (theap ?w a)" if "a < next_t ?w" "\<forall>n. transports ?w n \<noteq> Some a" for a
    using registry_okD(6) [OF ok that(1)] that(2) by blast
  show ?thesis using cnt reg live dead by simp
qed

theorem registry_reference_counting_witness:
  "registry_ok init_world \<and> disciplined (refcount init_world) demo_history
   \<and> refcount (run_ops demo_browser demo_history init_world) ''xts'' = 0
   \<and> refcount (run_ops demo_browser demo_history init_world) ''other'' = 1
   \<and> transports (run_ops demo_browser demo_history init_world) ''xts'' = None
   \<and> transports (run_ops demo_browser demo_history init_world) ''other'' = Some 1
   \<and> t_destroyed (theap (run_ops demo_browser demo_history init_world) 0)
   \<and> \<not> t_destroyed (theap (run_ops demo_browser demo_history init_world) 1)"
proof -
  have d: "disciplined (refcount init_world) demo_history"
    by (simp add: demo_history_def refcount_def init_world_def)
  have t: "tally (refcount init_world) demo_history ''xts'' = 0"
    "tally (refcount init_world) demo_history ''other'' = 1"
    by (simp_all add: demo_history_def refcount_def init_world_def)
  let ?w = "run_ops demo_browser demo_history init_world"
  have nt: "next_t ?w = 2" and other: "transports ?w ''other'' = Some 1"
    and only: "\<And>n. transports ?w n \<noteq> Some 0"
    by (simp_all add: demo_history_def getTransport_effect releaseTransport_effect effect_defs demo_defs)
  note main = registry_reference_counting [OF registry_ok_init d, of demo_browser]
  have "refcount ?w ''xts'' = 0" "refcount ?w ''other'' = 1"
    using main t by simp_all
  moreover have "transports ?w ''xts'' = None"
    using main \<open>refcount ?w ''xts'' = 0\<close> by (metis less_irrefl)
  moreover have "t_destroyed (theap ?w 0)"
    using main only nt by simp
  moreover have "\<not> t_destroyed (theap ?w 1)"
    using main other by blast
  ultimately show ?thesis using registry_ok_init d other by blast
qed

subsection \<open>C5: nothing is raised\<close>

text \<open>
  C5: on every platform, so whichever storage call, broadcast constructor, broadcast
  send, serializer, parser or consumer callback throws, each operation of the core
  returns to its caller from every context: constructing a channel, \<^verbatim>\<open>getValue\<close>,
  \<^verbatim>\<open>setValue\<close>, \<^verbatim>\<open>subscribe\<close> and the function it returns, \<^verbatim>\<open>destroy\<close>, the
  transport's \<^verbatim>\<open>publish\<close>, and the two handlers the platform calls. A throwing subscriber
  stops nobody else from being notified: \<^verbatim>\<open>setValue\<close> of a defined value and the
  acceptance of a remote message call every member of the subscriber set, and
  \<^verbatim>\<open>subscribe\<close> calls the new subscriber once with the current value.
\<close>

theorem core_operations_never_throw:
  "no_throw (new_channel p key initialValue opts)
   \<and> no_throw (getValue c)
   \<and> no_throw (setValue p c v)
   \<and> no_throw (subscribe p c fn)
   \<and> no_throw (unsubscribe c fn)
   \<and> no_throw (destroy c)
   \<and> no_throw (t_publish p t msg)
   \<and> no_throw (deliver_message p t msg)
   \<and> no_throw (storage_event p ekey newValue)
   \<and> (v \<noteq> Undefined \<longrightarrow>
        calls (snd (setValue p c v w)) = calls w @ map (\<lambda>fn. (c, fn, v)) (ch_subscribers (cheap w c)))
   \<and> (accepts (cheap w c) msg \<longrightarrow>
        calls (snd (chan_listener p c msg w))
          = calls w @ map (\<lambda>fn. (c, fn, get_prop msg ''value'')) (ch_subscribers (cheap w c)))
   \<and> calls (snd (subscribe p c fn w)) = calls w @ [(c, fn, ch_value (cheap w c))]"
proof -
  have a: "calls (snd (setValue p c v w)) = calls w @ map (\<lambda>fn. (c, fn, v)) (ch_subscribers (cheap w c))"
    if "v \<noteq> Undefined"
    using setValue_effect [OF that, of p c w] by auto
  have b: "calls (snd (chan_listener p c msg w))
          = calls w @ map (\<lambda>fn. (c, fn, get_prop msg ''value'')) (ch_subscribers (cheap w c))"
    if "accepts (cheap w c) msg"
    using that by (simp add: chan_listener_effect received_def)
  have d: "calls (snd (subscribe p c fn w)) = calls w @ [(c, fn, ch_value (cheap w c))]"
    by (simp add: subscribe_def bind_def modify_def read_def notify_one)
  have e: "no_throw (getValue c)" "no_throw (unsubscribe c fn)"
    by (simp_all add: getValue_def unsubscribe_def)
  show ?thesis
    using a b d e no_throw_new_channel [of p key initialValue opts] no_throw_setValue [of p c v]
      no_throw_subscribe [of p c fn] no_throw_destroy [of c] no_throw_t_publish [of p t msg]
      no_throw_events(1) [of p t msg] no_throw_events(2) [of p ekey newValue]
    by blast
qed

theorem core_operations_never_throw_witness:
  "callback_throws hostile 11 (JStr ''v'') \<and> JStr ''v'' \<noteq> Undefined
   \<and> fst (setValue hostile 0 (JStr ''v'') h_s) = Inr ()
   \<and> calls (snd (setValue hostile 0 (JStr ''v'') h_s))
        = calls h_s @ [(0, 11, JStr ''v''), (0, 12, JStr ''v'')]"
proof -
  have sub: "ch_subscribers (cheap h_s 0) = [11, 12]" by (simp add: h_s_eq)
  have nt: "no_throw (setValue hostile 0 (JStr ''v''))"
    using core_operations_never_throw [where p = hostile and c = 0 and v = "JStr ''v''"] by blast
  have "fst (setValue hostile 0 (JStr ''v'') h_s) = Inr ()"
    using no_throwD [OF nt, of h_s] by auto
  moreover have "calls (snd (setValue hostile 0 (JStr ''v'') h_s))
        = calls h_s @ map (\<lambda>fn. (0, fn, JStr ''v'')) (ch_subscribers (cheap h_s 0))"
    using core_operations_never_throw [where p = hostile and c = 0 and v = "JStr ''v''" and w = h_s]
    by blast
  ultimately show ?thesis by (simp add: sub hostile_def)
qed

subsection \<open>C6: persist, then restore\<close>

text \<open>
  C6, as stated, says that with \<open>persist\<close> and the default serialize and deserialize,
  after \<^verbatim>\<open>setValue("x")\<close> the slot of the key holds the serialized \<^verbatim>\<open>"x"\<close> and a fresh
  channel for the key with \<open>persist\<close> adopts \<^verbatim>\<open>"x"\<close>. In the old browser the persistent
  channel for key \<^verbatim>\<open>'k'\<close> has set \<^verbatim>\<open>'x'\<close> and the slot \<^verbatim>\<open>xts-k\<close> holds its JSON text; a
  fresh persistent channel for \<^verbatim>\<open>'k'\<close> is then constructed on the physical channel
  \<^verbatim>\<open>'other'\<close>, whose slot still holds the envelope of \<^verbatim>\<open>'y'\<close> for that key. The
  constructor restores \<^verbatim>\<open>'x'\<close>, subscribes, is handed the stored envelope, and the new
  channel's value is \<^verbatim>\<open>'y'\<close>.
\<close>

theorem restored_value_replaced_by_stored_message:
  "ch_key (cheap p_3 1) = ''k'' \<and> persist (ch_options (cheap p_3 1))
   \<and> fst (getValue 1 p_3) = Inr (JStr ''x'')
   \<and> localStorage p_3 ''xts-k'' = Some (json_text (JStr ''x''))
   \<and> fst (new_channel old_browser ''k'' (JStr ''i2'') elsewhere_persistent p_3) = Inr 2
   \<and> persist elsewhere_persistent
   \<and> fst (getValue 2 p_4) = Inr (JStr ''y'')"
proof -
  have "first_value old_browser p_3 ''k'' (JStr ''i2'') elsewhere_persistent = JStr ''y''"
    by (simp add: first_value_def replay_for_def stored_message_def joins_def p_3_facts slot_of_def physical_name_def
          truthy_def elsewhere_persistent_def old_browser_def demo_browser_def y_parse)
       (simp add: demo_envelope_def)
  then have "ch_value (cheap p_4 2) = JStr ''y''"
    using new_channel_value [of old_browser "''k''" "JStr ''i2''" elsewhere_persistent p_3]
    by (simp add: p_4_def run_def p_3_facts)
  then show ?thesis
    using p_3_facts
    by (simp add: getValue_def read_def new_channel_effect elsewhere_persistent_def)
qed

text \<open>
  C6, amended: in a browser context whose storage calls succeed, with \<open>persist\<close> and the
  default serialize and deserialize: after \<^verbatim>\<open>setValue("x")\<close> the slot \<^verbatim>\<open>xts-<key>\<close> holds
  the serialized \<^verbatim>\<open>"x"\<close>, provided that slot is not also the slot of the channel's
  storage-fallback transport; and a fresh channel for the key with \<open>persist\<close> has the
  value \<^verbatim>\<open>"x"\<close> when its constructor returns, whatever \<^verbatim>\<open>initialValue\<close> is, provided the
  message its transport hands to it at subscribe time, if there is one for its key,
  carries \<^verbatim>\<open>"x"\<close>. What happens when the two slots are one is shown by lemma
  \<open>persistence_slot_collision\<close> and is no part of this statement.
\<close>

theorem persist_restore_round_trip:
  assumes "has_window p"
    and "\<forall>k. \<not> ls_get_fails p k" and "\<forall>k t. \<not> ls_set_fails p k t"
    and "key = ch_key (cheap w c)"
    and "persist (ch_options (cheap w c))" and "ch_serialize (cheap w c) = JSON_stringify p"
    and "ch_storageKey (cheap w c) = ''xts-'' @ key"
    and "JSON_stringify p (JStr ''x'') = Inr s"
    and "s \<noteq> []" and "s \<noteq> ''undefined''" and "trim s \<noteq> []"
    and "JSON_parse p s = Inr (JStr ''x'')"
    and "\<not> (t_strategy (theap w (ch_transport (cheap w c))) = FallbackT
            \<and> slot_of (theap w (ch_transport (cheap w c))) = ''xts-'' @ key)"
    and "w1 = run (setValue p c (JStr ''x'')) w"
    and "persist opts" and "deserialize opts = None"
    and "\<forall>msg. replay_for p w1 (physical_name opts) = Some msg \<longrightarrow>
               get_prop msg ''key'' = JStr key \<longrightarrow> get_prop msg ''value'' = JStr ''x''"
  shows "localStorage w1 (''xts-'' @ key) = Some s
       \<and> fst (new_channel p key initialValue opts w1) = Inr (next_c w1)
       \<and> ch_value (cheap (run (new_channel p key initialValue opts) w1) (next_c w1)) = JStr ''x''"
proof -
  let ?tr = "theap w (ch_transport (cheap w c))"
  from setValue_effect [of "JStr ''x''" p c w] obtain me where
    ls1: "localStorage w1 = published p ?tr (envelope p (JStr ''x'') key me)
                              (persisted p (cheap w c) (JStr ''x'') (localStorage w))"
    unfolding assms(14) run_def assms(4) by auto
  have per: "persisted p (cheap w c) (JStr ''x'') (localStorage w) = (localStorage w)(''xts-'' @ key \<mapsto> s)"
    using assms(1,3,5,6,7,8,9,10) by (simp add: persisted_def)
  have slot: "localStorage w1 (''xts-'' @ key) = Some s"
  proof (cases "published p ?tr (envelope p (JStr ''x'') key me) ((localStorage w)(''xts-'' @ key \<mapsto> s)) (''xts-'' @ key)
                 = ((localStorage w)(''xts-'' @ key \<mapsto> s)) (''xts-'' @ key)")
    case True
    then show ?thesis by (simp add: ls1 per)
  next
    case False
    from published_elsewhere [OF False] assms(13) show ?thesis by simp
  qed
  have v0: "restored p (blank_channel p key initialValue opts 0) (localStorage w1) = JStr ''x''"
    using assms(1,2,9,10,11,12,15,16) slot by (simp add: restored_def blank_channel_def)
  have "first_value p w1 key initialValue opts = JStr ''x''"
  proof (cases "replay_for p w1 (physical_name opts)")
    case None
    then show ?thesis by (simp add: first_value_def v0)
  next
    case (Some msg)
    then show ?thesis using assms(17) by (simp add: first_value_def v0)
  qed
  then show ?thesis
    using slot new_channel_value [of p key initialValue opts w1]
    by (simp add: run_def new_channel_effect)
qed

theorem persist_restore_round_trip_witness:
  "persist (ch_options (cheap q_0 0)) \<and> ch_serialize (cheap q_0 0) = JSON_stringify old_browser
   \<and> t_strategy (theap q_0 (ch_transport (cheap q_0 0))) = FallbackT
   \<and> localStorage q_1 ''xts-k'' = Some (json_text (JStr ''x''))
   \<and> fst (new_channel old_browser ''k'' (JStr ''init'') persistent q_1) = Inr 1
   \<and> ch_value (cheap (run (new_channel old_browser ''k'' (JStr ''init'') persistent) q_1) 1) = JStr ''x''"
proof -
  have pre: "has_window old_browser" "\<forall>k. \<not> ls_get_fails old_browser k"
    "\<forall>k t. \<not> ls_set_fails old_browser k t"
    "''k'' = ch_key (cheap q_0 0)" "persist (ch_options (cheap q_0 0))"
    "ch_serialize (cheap q_0 0) = JSON_stringify old_browser"
    "ch_storageKey (cheap q_0 0) = ''xts-'' @ ''k''"
    by (simp_all add: q_0_eq old_browser_def demo_browser_def persistent_def)
  have ser: "JSON_stringify old_browser (JStr ''x'') = Inr (json_text (JStr ''x''))"
    "json_text (JStr ''x'') \<noteq> []" "json_text (JStr ''x'') \<noteq> ''undefined''"
    "JSON_parse old_browser (json_text (JStr ''x'')) = Inr (JStr ''x'')"
    using x_parse by (simp_all add: old_browser_def demo_browser_def demo_stringify_def json_string_def)
  have apart: "\<not> (t_strategy (theap q_0 (ch_transport (cheap q_0 0))) = FallbackT
            \<and> slot_of (theap q_0 (ch_transport (cheap q_0 0))) = ''xts-'' @ ''k'')"
    by (simp add: q_0_eq slot_of_def)
  have fb: "t_strategy (theap q_0 (ch_transport (cheap q_0 0))) = FallbackT"
    by (simp add: q_0_eq)
  have opts: "persist persistent" "deserialize persistent = None"
    by (simp_all add: persistent_def)
  have quiet: "\<forall>msg. replay_for old_browser q_1 (physical_name persistent) = Some msg \<longrightarrow>
               get_prop msg ''key'' = JStr ''k'' \<longrightarrow> get_prop msg ''value'' = JStr ''x''"
    by (simp add: physical_name_def persistent_def truthy_def q_1_replay) (simp add: demo_envelope_def)
  have nc: "next_c q_1 = 1" by (simp add: q_1_eq q_0_eq)
  show ?thesis
    using persist_restore_round_trip [OF pre ser(1,2,3) x_trim ser(4) apart q_1_def opts quiet,
        of "JStr ''init''"] pre(5,6) fb
    by (simp add: nc)
qed

subsection \<open>C7: after destroy\<close>

text \<open>
  C7: \<^verbatim>\<open>destroy()\<close> returns, calls no subscriber and leaves the channel's subscriber set
  empty; a following \<^verbatim>\<open>setValue\<close> returns and calls no subscriber at all, so none of
  those registered before the \<^verbatim>\<open>destroy()\<close>; and a second \<^verbatim>\<open>destroy()\<close> returns
  as well, raising nothing.
\<close>

theorem destroy_then_setValue_is_silent:
  "fst (destroy c w) = Inr ()
   \<and> calls (snd (destroy c w)) = calls w
   \<and> ch_subscribers (cheap (snd (destroy c w)) c) = []
   \<and> fst (setValue p c v (snd (destroy c w))) = Inr ()
   \<and> calls (snd (setValue p c v (snd (destroy c w)))) = calls w
   \<and> fst (destroy c (snd (destroy c w))) = Inr ()"
proof -
  let ?w = "snd (destroy c w)"
  have sub: "ch_subscribers (cheap ?w c) = []" by (rule destroy_subscribers)
  have "fst (setValue p c v ?w) = Inr () \<and> calls (snd (setValue p c v ?w)) = calls ?w"
  proof (cases "v = Undefined")
    case True
    then show ?thesis by (simp add: setValue_def ret_def)
  next
    case False
    from setValue_effect [OF False, of p c ?w] obtain me S T where
      "setValue p c v ?w =
       (Inr (), ?w\<lparr>localStorage := published p (theap ?w (ch_transport (cheap ?w c)))
                      (envelope p v (ch_key (cheap ?w c)) me)
                      (persisted p (cheap ?w c) v (localStorage ?w)),
                   sessionStorage := S, tabId := T,
                   cheap := (cheap ?w)(c := (cheap ?w c)\<lparr>ch_value := v\<rparr>),
                   calls := calls ?w @ map (\<lambda>fn. (c, fn, v)) (ch_subscribers (cheap ?w c))\<rparr>)"
      by blast
    then show ?thesis by (simp add: sub)
  qed
  then show ?thesis
    by (simp add: destroy_ok destroy_calls sub)
qed

theorem destroy_then_setValue_is_silent_witness:
  "ch_subscribers (cheap n_s 0) = [11, 13, 12]
   \<and> calls (snd (setValue demo_browser 0 (JStr ''late'') (snd (destroy 0 n_s)))) = calls n_s
   \<and> fst (destroy 0 (snd (destroy 0 n_s))) = Inr ()"
  using destroy_then_setValue_is_silent [of 0 n_s demo_browser "JStr ''late''"]
  by (simp add: n_s_eq n_a_eq)

subsection \<open>C8: key isolation\<close>

text \<open>
  C8: a message whose \<open>key\<close> is not the key of channel \<open>c\<close> leaves \<open>c\<close> alone. Handed to
  the channel's listener it changes nothing at all; delivered to any transport by the
  native handler or by a storage event, while other channels may accept it, the value of
  \<open>c\<close> stays what it was and \<open>c\<close> calls none of its subscribers.
\<close>

theorem key_isolation:
  assumes "get_prop msg ''key'' \<noteq> JStr (ch_key (cheap w c))"
  shows "chan_listener p c msg w = (Inr (), w)
       \<and> ch_value (cheap (snd (deliver_message p t msg w)) c) = ch_value (cheap w c)
       \<and> calls_of c (snd (deliver_message p t msg w)) = calls_of c w
       \<and> (JSON_parse p s = Inr msg \<longrightarrow>
            ch_value (cheap (snd (storage_event p ekey (Some s) w)) c) = ch_value (cheap w c)
            \<and> calls_of c (snd (storage_event p ekey (Some s) w)) = calls_of c w)"
proof -
  have a: "untouched c w (snd (deliver_message p t msg w))"
    by (rule deliver_message_untouched [OF assms])
  have b: "untouched c w (snd (storage_event p ekey (Some s) w))" if "JSON_parse p s = Inr msg"
    by (rule storage_event_untouched) (use that assms in simp)
  show ?thesis
    using a b chan_listener_reject [OF assms, of p] by (simp add: untouched_def)
qed

theorem key_isolation_witness:
  "get_prop remote_envelope ''key'' \<noteq> JStr (ch_key (cheap n_two 0))
   \<and> ch_value (cheap (snd (deliver_message demo_browser 0 remote_envelope n_two)) 0) = JStr ''a0''
   \<and> calls_of 0 (snd (deliver_message demo_browser 0 remote_envelope n_two)) = [(0, 21, JStr ''a0'')]
   \<and> ch_value (cheap (snd (deliver_message demo_browser 0 remote_envelope n_two)) 1) = JStr ''remote''
   \<and> ch_value (cheap (snd (storage_event old_browser (Some ''xts-xts'')
         (Some (json_text remote_envelope)) o_two)) 0) = JStr ''a0''
   \<and> ch_value (cheap (snd (storage_event old_browser (Some ''xts-xts'')
         (Some (json_text remote_envelope)) o_two)) 1) = JStr ''remote''"
proof -
  have a: "get_prop remote_envelope ''key'' \<noteq> JStr (ch_key (cheap n_two 0))"
    by (simp add: n_two_eq remote_envelope_def)
  have b: "get_prop remote_envelope ''key'' \<noteq> JStr (ch_key (cheap o_two 0))"
    by (simp add: o_two_eq remote_envelope_def)
  have v: "ch_value (cheap n_two 0) = JStr ''a0''" "calls_of 0 n_two = [(0, 21, JStr ''a0'')]"
    "ch_value (cheap o_two 0) = JStr ''a0''"
    by (simp_all add: n_two_eq o_two_eq calls_of_def)
  show ?thesis
    using key_isolation [OF a, of demo_browser 0] key_isolation [OF b, of old_browser _ "json_text remote_envelope" "Some ''xts-xts''"]
      a v remote_parse n_two_delivery o_two_delivery
    by simp
qed

subsection \<open>C9: setting undefined\<close>

text \<open>
  C9: \<^verbatim>\<open>setValue(undefined)\<close> is a no-op. The call returns and leaves the whole context
  as it was: the value \<^verbatim>\<open>getValue()\<close> reads, the trace of subscriber calls, every
  storage slot, and the transport, to which nothing is published.
\<close>

theorem setValue_undefined_is_noop: "setValue p c Undefined w = (Inr (), w)"
  by (simp add: setValue_def ret_def)

theorem setValue_undefined_is_noop_witness:
  "setValue demo_browser 0 Undefined n_s = (Inr (), n_s)
   \<and> fst (getValue 0 n_s) = Inr (JStr ''a'')"
  using setValue_undefined_is_noop [of demo_browser 0 n_s]
  by (simp add: n_s_eq n_a_eq getValue_def read_def)

subsection \<open>C10: a serialization that is the empty string\<close>

text \<open>
  C10 says that when \<open>serialize\<close> returns the empty string for \<open>v\<close>, accepting \<open>v\<close>
  updates the value in memory and does not write the persistence slot of the key, which
  keeps its content. The guard does this (lemma \<open>empty_serialization_guard\<close>: the
  persistence step writes nothing; a message accepted from the transport leaves
  \<^verbatim>\<open>localStorage\<close> as it was; \<^verbatim>\<open>setValue\<close> changes no slot but the one of a fallback
  transport). But the slot of the fallback transport is \<^verbatim>\<open>xts-<channelName>\<close> and the
  persistence slot is \<^verbatim>\<open>xts-<key>\<close>: for the key \<^verbatim>\<open>'xts'\<close> on the default physical channel
  they are one slot. There \<^verbatim>\<open>setValue('v')\<close> skips the persistence write and then
  publishes the envelope into the persistence slot, which was empty before.
\<close>

theorem empty_serialization_slot_overwritten:
  "persist (ch_options (cheap r_0 0))
   \<and> ch_serialize (cheap r_0 0) (JStr ''v'') = Inr []
   \<and> ch_storageKey (cheap r_0 0) = ''xts-xts''
   \<and> localStorage r_0 ''xts-xts'' = None
   \<and> fst (getValue 0 r_1) = Inr (JStr ''v'')
   \<and> localStorage r_1 ''xts-xts'' = Some (json_text (demo_envelope (JStr ''v'') ''xts''))"
  by (simp add: r_1_eq r_0_eq getValue_def read_def init_world_def mute_def)

end
